theory Spec2Isabelle
  imports Complex_Main "HOL-Library.Multiset"
begin

section \<open>Data model\<close>

text \<open>
  The types of the battle context: one record per TypeScript object type. JavaScript
  numbers that hold coordinates, counters and timestamps are integers (\<open>int\<close>); the
  chunk activity counter, which the decay multiplies by 0.999, 0.98 or 0.95, is a
  \<open>real\<close>, so arithmetic on it is exact (IEEE rounding is not modelled). An optional
  field is an \<open>option\<close>. A cell coordinate \<open>{x, y}\<close> is the pair \<open>(x, y)\<close>.
\<close>

datatype Team = blue | red

datatype error = TypeError

record ShipRef =
  ref_id :: string
  ref_owner :: string

record CellState =
  occupied :: bool
  hit :: bool
  ship :: "ShipRef option"
  cooldownUntil :: "int option"

record Ship =
  ship_id :: string
  ship_owner :: string
  cells :: "(int \<times> int) list"
  hits :: int
  destroyed :: bool

record Chunk =
  chunk_x :: int
  chunk_y :: int
  heatLevel :: int
  lastActivity :: int
  activityCount :: real

record GridStats =
  totalShips :: int
  totalHits :: int
  totalChunks :: int

record TeamGridState =
  grid :: "CellState list list"
  ships :: "Ship list"
  chunks :: "Chunk list"
  stats :: GridStats

record BattleState =
  blueTeamGrid :: TeamGridState
  redTeamGrid :: TeamGridState

datatype ActionType = PLACE_SHIP | FIRE

record BattleAction =
  act_type :: ActionType
  act_x :: int
  act_y :: int
  shipId :: "string option"
  owner :: "string option"
  shipCells :: "(int \<times> int) list option"
  timestamp :: int
  team :: "Team option"

record AdditionalStats =
  destroyedShips :: int
  activeShips :: int
  hitRatio :: int

section \<open>Constants\<close>

definition GRID_SIZE :: int where
  "GRID_SIZE = 1000"

definition CHUNK_SIZE :: int where
  "CHUNK_SIZE = 10"

definition CELLS_PER_CHUNK :: int where
  "CELLS_PER_CHUNK = 100"

definition TOTAL_CHUNKS :: int where
  "TOTAL_CHUNKS = CHUNK_SIZE * CHUNK_SIZE"

definition DESTROYED_TERRITORY_COOLDOWN :: int where
  "DESTROYED_TERRITORY_COOLDOWN = 10000"

definition ACTIVITY_LIFETIME :: int where
  "ACTIVITY_LIFETIME = 120000"

definition ACTIVITY_EXTENDED_LIFETIME :: int where
  "ACTIVITY_EXTENDED_LIFETIME = 240000"

definition NO_DECAY_PERIOD :: int where
  "NO_DECAY_PERIOD = 60000"

definition SUPER_SLOW_DECAY_RATE :: real where
  "SUPER_SLOW_DECAY_RATE = 0.999"

definition SLOW_DECAY_RATE :: real where
  "SLOW_DECAY_RATE = 0.98"

definition FINAL_DECAY_RATE :: real where
  "FINAL_DECAY_RATE = 0.95"

section \<open>Grid utilities\<close>

text \<open>
  Reading a JavaScript array at an index outside it gives \<open>undefined\<close>, here \<open>None\<close>.
  \<open>cell_at g x y\<close> is \<open>g[y][x]\<close>; \<open>None\<close> stands for the two cases in which using the
  result as a cell throws a TypeError: the row is \<open>undefined\<close>, or the cell is.
\<close>

definition js_index :: "'a list \<Rightarrow> int \<Rightarrow> 'a option" where
  "js_index xs i = (if 0 \<le> i \<and> i < int (length xs) then Some (xs ! nat i) else None)"

definition cell_at :: "CellState list list \<Rightarrow> int \<Rightarrow> int \<Rightarrow> CellState option" where
  "cell_at g x y = (case js_index g y of None \<Rightarrow> None | Some row \<Rightarrow> js_index row x)"

text \<open>
  \<open>newGrid[y][x] = c\<close>: the row object is shared by every copy of the outer array, so
  the write is a write to the one grid. Every write of the source stands behind a read
  of the same cell or a bounds check against \<open>GRID_SIZE\<close>, so a write outside the grid
  (which would grow a JavaScript array) is never reached; here it changes nothing.
\<close>

definition set_cell :: "CellState list list \<Rightarrow> int \<Rightarrow> int \<Rightarrow> CellState \<Rightarrow> CellState list list" where
  "set_cell g x y c = (if 0 \<le> x \<and> 0 \<le> y then g[nat y := (g ! nat y)[nat x := c]] else g)"

definition emptyCell :: CellState where
  "emptyCell = \<lparr>occupied = False, hit = False, ship = None, cooldownUntil = None\<rparr>"

definition generateEmptyGrid :: "CellState list list" where
  "generateEmptyGrid = replicate (nat GRID_SIZE) (replicate (nat GRID_SIZE) emptyCell)"

definition getChunkFromCoords :: "int \<Rightarrow> int \<Rightarrow> int \<times> int" where
  "getChunkFromCoords x y = (x div CELLS_PER_CHUNK, y div CELLS_PER_CHUNK)"

text \<open>\<open>!c.cooldownUntil || c.cooldownUntil < now\<close>: an absent field and the number 0 are falsy.\<close>

definition cooldownOver :: "int option \<Rightarrow> int \<Rightarrow> bool" where
  "cooldownOver c now = (case c of None \<Rightarrow> True | Some t \<Rightarrow> t = 0 \<or> t < now)"

text \<open>
  \<open>cells.every(...)\<close> stops at the first cell that fails; a cell inside the bounds that
  the grid does not hold throws on \<open>.occupied\<close>.
\<close>

fun isValidShipPlacement :: "CellState list list \<Rightarrow> (int \<times> int) list \<Rightarrow> int \<Rightarrow> error + bool" where
  "isValidShipPlacement g [] now = Inr True"
| "isValidShipPlacement g ((x, y) # rest) now =
     (if x \<ge> 0 \<and> x < GRID_SIZE \<and> y \<ge> 0 \<and> y < GRID_SIZE then
        (case cell_at g x y of
           None \<Rightarrow> Inl TypeError
         | Some c \<Rightarrow>
             if \<not> occupied c \<and> cooldownOver (cooldownUntil c) now
             then isValidShipPlacement g rest now
             else Inr False)
      else Inr False)"

section \<open>Derived statistics\<close>

text \<open>
  \<open>(destroyedShips / totalHits) * 100\<close> is computed in IEEE 754 binary64, as every
  JavaScript number is. A finite double that is not negative is written \<open>(m, e)\<close> for
  \<open>m * 2 ^ e\<close>. \<open>toDouble p q\<close> is the double nearest to the quotient \<open>p / q\<close> of two
  integers (\<open>p\<close> not negative, \<open>q\<close> positive), with ties to the even mantissa: the
  quotient is scaled into \<open>[2 ^ 52, 2 ^ 53)\<close> and rounded to an integer there. The two
  operands of the division are counters, integers below \<open>2 ^ 53\<close> and so doubles
  themselves; their quotient and its product with 100 lie far inside the range of normal
  doubles, so rounding to 53 bits is all that IEEE arithmetic does to them.
\<close>

fun bitLength :: "nat \<Rightarrow> nat" where
  "bitLength n = (if n = 0 then 0 else Suc (bitLength (n div 2)))"

declare bitLength.simps [simp del]

definition roundHalfEven :: "int \<Rightarrow> int \<Rightarrow> int" where
  "roundHalfEven p q =
     (let f = p div q; r = p mod q
      in if 2 * r < q then f
         else if 2 * r > q then f + 1
         else if even f then f else f + 1)"

definition floorLog2 :: "int \<Rightarrow> int \<Rightarrow> int" where
  "floorLog2 p q =
     (let k = int (bitLength (nat p)) - int (bitLength (nat q))
      in if (if k \<ge> 0 then p \<ge> q * 2 ^ nat k else p * 2 ^ nat (- k) \<ge> q) then k else k - 1)"

definition toDouble :: "int \<Rightarrow> int \<Rightarrow> int \<times> int" where
  "toDouble p q =
     (if p \<le> 0 then (0, 0)
      else
        let e = floorLog2 p q - 52;
            m = (if e \<ge> 0 then roundHalfEven p (q * 2 ^ nat e)
                 else roundHalfEven (p * 2 ^ nat (- e)) q)
        in (m, e))"

definition doubleValue :: "int \<times> int \<Rightarrow> real" where
  "doubleValue d = (case d of (m, e) \<Rightarrow>
     if e \<ge> 0 then real_of_int (m * 2 ^ nat e) else real_of_int m / 2 ^ nat (- e))"

definition divDouble :: "int \<Rightarrow> int \<Rightarrow> int \<times> int" where
  "divDouble a b = toDouble a b"

definition mulDouble :: "int \<times> int \<Rightarrow> int \<Rightarrow> int \<times> int" where
  "mulDouble d c = (case d of (m, e) \<Rightarrow>
     if e \<ge> 0 then toDouble (m * c * 2 ^ nat e) 1 else toDouble (m * c) (2 ^ nat (- e)))"

text \<open>\<open>Math.round\<close>: the nearest integer, a tie going upwards; it is exact.\<close>

definition Math_round :: "real \<Rightarrow> int" where
  "Math_round v = \<lfloor>v + 1 / 2\<rfloor>"

definition calculateAdditionalStats :: "Ship list \<Rightarrow> int \<Rightarrow> AdditionalStats" where
  "calculateAdditionalStats shs hitsTotal =
     (let destroyedCount = int (length (filter destroyed shs));
          activeCount = int (length shs) - destroyedCount;
          ratio = (if hitsTotal > 0
                   then Math_round (doubleValue (mulDouble (divDouble destroyedCount hitsTotal) 100))
                   else 0)
      in \<lparr>destroyedShips = destroyedCount, activeShips = activeCount, hitRatio = ratio\<rparr>)"

definition teamStats :: "TeamGridState \<Rightarrow> AdditionalStats" where
  "teamStats t = calculateAdditionalStats (ships t) (totalHits (stats t))"

section \<open>Heat levels\<close>

text \<open>
  \<open>Array.prototype.sort\<close> is stable, and so is \<open>sort_key\<close>; sorting by the negated
  count is the comparator \<open>b.activityCount - a.activityCount\<close>.
\<close>

definition assignHeat :: "real \<Rightarrow> real \<Rightarrow> real \<Rightarrow> Chunk \<Rightarrow> Chunk" where
  "assignHeat hotThreshold warmThreshold minActivityThreshold chunk =
     (if activityCount chunk \<ge> hotThreshold \<and> activityCount chunk > 0 then chunk\<lparr>heatLevel := 3\<rparr>
      else if activityCount chunk \<ge> warmThreshold \<and> activityCount chunk > 0 then chunk\<lparr>heatLevel := 2\<rparr>
      else if activityCount chunk \<ge> minActivityThreshold then chunk\<lparr>heatLevel := 1\<rparr>
      else chunk\<lparr>heatLevel := 0\<rparr>)"

definition updateHeatLevels :: "Chunk list \<Rightarrow> Chunk list" where
  "updateHeatLevels chs =
     (let activeChunks = filter (\<lambda>chunk. activityCount chunk > 0) chs in
      if length activeChunks = 0 then chs
      else
        let sortedChunks = sort_key (\<lambda>chunk. - activityCount chunk) activeChunks;
            maxActivity = activityCount (sortedChunks ! 0);
            hotCount = max 1 \<lfloor>real (length activeChunks) * 0.2\<rfloor>;
            warmCount = max 2 \<lfloor>real (length activeChunks) * 0.3\<rfloor>;
            hotThreshold = activityCount
              (sortedChunks ! nat (min (hotCount - 1) (int (length sortedChunks) - 1)));
            warmThreshold = activityCount
              (sortedChunks ! nat (min (hotCount + warmCount - 1) (int (length sortedChunks) - 1)));
            minActivityThreshold = maxActivity * 0.03
        in map (assignHeat hotThreshold warmThreshold minActivityThreshold) chs)"

section \<open>State access\<close>

text \<open>
  \<open>setBlueTeamGrid(prev => f(prev))\<close> and \<open>setRedTeamGrid\<close> queue the updater; React
  runs the queued updaters in the order of the calls before it renders again. An action
  is one call of \<open>placeShip\<close> or \<open>fireShot\<close> on the state the provider has rendered; the
  state it leaves is that state with the action's updaters applied in their order. What
  the action reads while it runs, it reads from the rendered state.
\<close>

fun opposite :: "Team \<Rightarrow> Team" where
  "opposite blue = red"
| "opposite red = blue"

fun teamGrid :: "Team \<Rightarrow> BattleState \<Rightarrow> TeamGridState" where
  "teamGrid blue s = blueTeamGrid s"
| "teamGrid red s = redTeamGrid s"

fun setTeamGrid :: "Team \<Rightarrow> (TeamGridState \<Rightarrow> TeamGridState) \<Rightarrow> BattleState \<Rightarrow> BattleState" where
  "setTeamGrid blue f s = s\<lparr>blueTeamGrid := f (blueTeamGrid s)\<rparr>"
| "setTeamGrid red f s = s\<lparr>redTeamGrid := f (redTeamGrid s)\<rparr>"

definition initialChunks :: "Chunk list" where
  "initialChunks =
     map (\<lambda>index. \<lparr>chunk_x = int index mod CHUNK_SIZE, chunk_y = int index div CHUNK_SIZE,
                    heatLevel = 0, lastActivity = 0, activityCount = 0\<rparr>)
         [0..<nat TOTAL_CHUNKS]"

definition initialTeamGrid :: TeamGridState where
  "initialTeamGrid =
     \<lparr>grid = generateEmptyGrid, ships = [], chunks = initialChunks,
      stats = \<lparr>totalShips = 0, totalHits = 0, totalChunks = TOTAL_CHUNKS\<rparr>\<rparr>"

definition initialState :: BattleState where
  "initialState = \<lparr>blueTeamGrid = initialTeamGrid, redTeamGrid = initialTeamGrid\<rparr>"

section \<open>Chunk activity\<close>

fun findIndex :: "('a \<Rightarrow> bool) \<Rightarrow> 'a list \<Rightarrow> nat option" where
  "findIndex P [] = None"
| "findIndex P (v # vs) =
     (if P v then Some 0 else (case findIndex P vs of None \<Rightarrow> None | Some i \<Rightarrow> Some (Suc i)))"

text \<open>\<open>activityCount || 0\<close>: the count itself unless it is 0, and then 0.\<close>

definition recordActivity :: "int \<Rightarrow> int \<Rightarrow> int \<Rightarrow> TeamGridState \<Rightarrow> TeamGridState" where
  "recordActivity now chunkX chunkY prev =
     (let newChunks =
        (case findIndex (\<lambda>chunk. chunk_x chunk = chunkX \<and> chunk_y chunk = chunkY) (chunks prev) of
           None \<Rightarrow> chunks prev
         | Some chunkIndex \<Rightarrow>
             (chunks prev)[chunkIndex := (chunks prev ! chunkIndex)
                \<lparr>activityCount :=
                   (if activityCount (chunks prev ! chunkIndex) = 0 then 0
                    else activityCount (chunks prev ! chunkIndex)) + 1,
                 lastActivity := now\<rparr>])
      in prev\<lparr>chunks := updateHeatLevels newChunks\<rparr>)"

definition updateChunkActivity :: "int \<Rightarrow> int \<Rightarrow> int \<Rightarrow> Team \<Rightarrow> BattleState \<Rightarrow> BattleState" where
  "updateChunkActivity now x y tm s =
     (case getChunkFromCoords x y of
        (chunkX, chunkY) \<Rightarrow> setTeamGrid (opposite tm) (recordActivity now chunkX chunkY) s)"

section \<open>Cooldown of destroyed territory\<close>

text \<open>
  The \<open>Set\<close> of keys \<open>"x,y"\<close> is a duplicate-free list in insertion order; a key is
  the pair it is parsed back to.
\<close>

definition set_add :: "'a list \<Rightarrow> 'a \<Rightarrow> 'a list" where
  "set_add ks k = (if k \<in> set ks then ks else ks @ [k])"

definition inBounds :: "int \<times> int \<Rightarrow> bool" where
  "inBounds p = (case p of (cx, cy) \<Rightarrow> \<not> (cx < 0 \<or> cx \<ge> GRID_SIZE \<or> cy < 0 \<or> cy \<ge> GRID_SIZE))"

definition around :: "int \<times> int \<Rightarrow> (int \<times> int) list" where
  "around p = (case p of (px, py) \<Rightarrow>
     filter inBounds (concat (map (\<lambda>dx. map (\<lambda>dy. (px + dx, py + dy)) [-1, 0, 1]) [-1, 0, 1])))"

definition cooldownCells :: "(int \<times> int) list \<Rightarrow> (int \<times> int) list" where
  "cooldownCells cs = foldl set_add (foldl set_add [] cs) (concat (map around cs))"

definition coolCell :: "int \<Rightarrow> CellState list list \<Rightarrow> int \<times> int \<Rightarrow> CellState list list" where
  "coolCell cooldownEndTime g key = (case key of (kx, ky) \<Rightarrow>
     if kx \<ge> 0 \<and> kx < GRID_SIZE \<and> ky \<ge> 0 \<and> ky < GRID_SIZE
     then set_cell g kx ky ((g ! nat ky ! nat kx)\<lparr>cooldownUntil := Some cooldownEndTime\<rparr>)
     else g)"

definition applyCooldownToShipArea :: "int \<Rightarrow> (int \<times> int) list \<Rightarrow> TeamGridState \<Rightarrow> TeamGridState" where
  "applyCooldownToShipArea now cs prev =
     (let cooldownEndTime = now + DESTROYED_TERRITORY_COOLDOWN
      in prev\<lparr>grid := foldl (coolCell cooldownEndTime) (grid prev) (cooldownCells cs)\<rparr>)"

section \<open>The action processor\<close>

definition markHit :: "int \<Rightarrow> int \<Rightarrow> TeamGridState \<Rightarrow> TeamGridState" where
  "markHit x y prev =
     prev\<lparr>grid := set_cell (grid prev) x y ((grid prev ! nat y ! nat x)\<lparr>hit := True\<rparr>),
          stats := (stats prev)\<lparr>totalHits := totalHits (stats prev) + 1\<rparr>\<rparr>"

definition hitShip :: "string \<Rightarrow> Ship \<Rightarrow> Ship" where
  "hitShip sid sh =
     (if ship_id sh = sid
      then sh\<lparr>hits := hits sh + 1, destroyed := (hits sh + 1 = int (length (cells sh)))\<rparr>
      else sh)"

text \<open>
  The callback of \<open>prev.ships.map\<close> also assigns \<open>shipWasDestroyed\<close> and
  \<open>destroyedShipCells\<close>, two variables of \<open>processAction\<close>. It is the body of an updater,
  which React runs when it processes the provider's queue, after \<open>processAction\<close> has
  returned: the update that marks the hit was queued just before and is still pending, so
  React does not compute this one at the call. The test that follows the call therefore
  reads the two variables as they were initialised, \<open>false\<close> and \<open>[]\<close>, and
  \<open>applyCooldownToShipArea\<close> is not called.
\<close>

definition placeCells :: "ShipRef \<Rightarrow> (int \<times> int) list \<Rightarrow> CellState list list \<Rightarrow> CellState list list" where
  "placeCells r cs g =
     foldl (\<lambda>newGrid cell. set_cell newGrid (fst cell) (snd cell)
               \<lparr>occupied = True, hit = False, ship = Some r, cooldownUntil = None\<rparr>) g cs"

definition registerShip :: "Ship \<Rightarrow> TeamGridState \<Rightarrow> TeamGridState" where
  "registerShip newShip prev =
     prev\<lparr>grid := placeCells \<lparr>ref_id = ship_id newShip, ref_owner = ship_owner newShip\<rparr>
                     (cells newShip) (grid prev),
          ships := ships prev @ [newShip],
          stats := (stats prev)\<lparr>totalShips := totalShips (stats prev) + 1\<rparr>\<rparr>"

text \<open>
  \<open>processAction now gen a s\<close>: \<open>now\<close> is what \<open>Date.now()\<close> returns during the action,
  \<open>gen\<close> what \<open>generateId()\<close> would return. The result is what the call returns or
  throws, with the state it leaves.
\<close>

definition processAction :: "int \<Rightarrow> string \<Rightarrow> BattleAction \<Rightarrow> BattleState \<Rightarrow> (error + bool) \<times> BattleState" where
  "processAction now gen a s =
     (let actionTeam = (case team a of None \<Rightarrow> blue | Some t \<Rightarrow> t) in
      if act_type a = FIRE then
        (let targetTeam = opposite actionTeam;
             s1 = updateChunkActivity now (act_x a) (act_y a) actionTeam s;
             targetGrid = grid (teamGrid targetTeam s)
         in case cell_at targetGrid (act_x a) (act_y a) of
              None \<Rightarrow> (Inl TypeError, s1)
            | Some cell \<Rightarrow>
                if hit cell then (Inr False, s1)
                else
                  let s2 = setTeamGrid targetTeam (markHit (act_x a) (act_y a)) s1 in
                  (case ship cell of
                     Some r \<Rightarrow>
                       if occupied cell then
                         (let shipWasDestroyed = False;
                              destroyedShipCells = ([] :: (int \<times> int) list);
                              s3 = setTeamGrid targetTeam
                                     (\<lambda>prev. prev\<lparr>ships := map (hitShip (ref_id r)) (ships prev)\<rparr>) s2
                          in if shipWasDestroyed \<and> length destroyedShipCells > 0
                             then (Inr True,
                                   setTeamGrid targetTeam
                                     (applyCooldownToShipArea now destroyedShipCells) s3)
                             else (Inr True, s3))
                       else (Inr True, s2)
                   | None \<Rightarrow> (Inr True, s2)))
      else
        (case (shipCells a, owner a) of
           (Some cs, Some ow) \<Rightarrow>
             if ow = [] then (Inr False, s)
             else
               (let newShip = \<lparr>ship_id = (case shipId a of
                                             None \<Rightarrow> gen
                                           | Some i \<Rightarrow> if i = [] then gen else i),
                               ship_owner = ow, cells = cs, hits = 0, destroyed = False\<rparr>;
                    targetGrid = grid (teamGrid actionTeam s)
                in case isValidShipPlacement targetGrid cs now of
                     Inl e \<Rightarrow> (Inl e, s)
                   | Inr ok \<Rightarrow>
                       if \<not> ok then (Inr False, s)
                       else (Inr True, setTeamGrid actionTeam (registerShip newShip) s))
         | _ \<Rightarrow> (Inr False, s)))"

text \<open>
  \<open>placeShip player now newId gen x y sz horizontal tm s\<close>: \<open>player\<close> is
  \<open>currentPlayer\<close>, \<open>newId\<close> the identifier \<open>generateId()\<close> returns in \<open>placeShip\<close>.
\<close>

definition placeShipCells :: "int \<Rightarrow> int \<Rightarrow> int \<Rightarrow> bool \<Rightarrow> (int \<times> int) list" where
  "placeShipCells x y sz horizontal =
     map (\<lambda>i. (if horizontal then x + i else x, if horizontal then y else y + i)) [0..sz - 1]"

definition placeShip ::
  "string \<Rightarrow> int \<Rightarrow> string \<Rightarrow> string \<Rightarrow> int \<Rightarrow> int \<Rightarrow> int \<Rightarrow> bool \<Rightarrow> Team \<Rightarrow> BattleState
     \<Rightarrow> (error + bool) \<times> BattleState" where
  "placeShip player now newId gen x y sz horizontal tm s =
     processAction now gen
       \<lparr>act_type = PLACE_SHIP, act_x = x, act_y = y, shipId = Some newId, owner = Some player,
        shipCells = Some (placeShipCells x y sz horizontal), timestamp = now, team = Some tm\<rparr> s"

definition fireShot :: "int \<Rightarrow> int \<Rightarrow> int \<Rightarrow> Team \<Rightarrow> BattleState \<Rightarrow> (error + bool) \<times> BattleState" where
  "fireShot now x y tm s =
     processAction now []
       \<lparr>act_type = FIRE, act_x = x, act_y = y, shipId = None, owner = None,
        shipCells = None, timestamp = now, team = Some tm\<rparr> s"

section \<open>Heat decay\<close>

definition decayChunk :: "int \<Rightarrow> Chunk \<Rightarrow> Chunk \<times> bool" where
  "decayChunk now chunk =
     (if activityCount chunk > 0 then
        (let timeSinceActivity = now - lastActivity chunk in
         if timeSinceActivity \<le> NO_DECAY_PERIOD then (chunk, False)
         else
           let decayRate =
                 (if timeSinceActivity < ACTIVITY_LIFETIME then SUPER_SLOW_DECAY_RATE
                  else if timeSinceActivity < ACTIVITY_EXTENDED_LIFETIME then SLOW_DECAY_RATE
                  else FINAL_DECAY_RATE);
               newActivityCount = activityCount chunk * decayRate
           in if newActivityCount < 0.1 then
                (if activityCount chunk > 0
                 then (chunk\<lparr>activityCount := 0, heatLevel := 0\<rparr>, True)
                 else (chunk, False))
              else if \<bar>newActivityCount - activityCount chunk\<bar> > 0.01
                then (chunk\<lparr>activityCount := newActivityCount\<rparr>, True)
                else (chunk, False))
      else (chunk, False))"

text \<open>The \<open>for\<close> loop over the copied chunk array, with its \<open>hasChanges\<close> flag.\<close>

fun decayLoop :: "int \<Rightarrow> Chunk list \<Rightarrow> Chunk list \<times> bool" where
  "decayLoop now [] = ([], False)"
| "decayLoop now (chunk # rest) =
     (case decayChunk now chunk of
        (chunk', changed) \<Rightarrow>
          (case decayLoop now rest of
             (rest', hasChanges) \<Rightarrow> (chunk' # rest', changed \<or> hasChanges)))"

definition decayTeam :: "int \<Rightarrow> TeamGridState \<Rightarrow> TeamGridState" where
  "decayTeam now prev =
     (case decayLoop now (chunks prev) of
        (newChunks, hasChanges) \<Rightarrow>
          if hasChanges then prev\<lparr>chunks := updateHeatLevels newChunks\<rparr> else prev)"

definition decayTick :: "int \<Rightarrow> BattleState \<Rightarrow> BattleState" where
  "decayTick now s = setTeamGrid red (decayTeam now) (setTeamGrid blue (decayTeam now) s)"

section \<open>Well-formed states and the specification's predicates\<close>

text \<open>
  A grid as \<open>generateEmptyGrid\<close> builds it and every operation keeps it: \<open>GRID_SIZE\<close>
  rows of \<open>GRID_SIZE\<close> cells.
\<close>

definition wf_grid :: "CellState list list \<Rightarrow> bool" where
  "wf_grid g = (int (length g) = GRID_SIZE \<and> list_all (\<lambda>row. int (length row) = GRID_SIZE) g)"

text \<open>
  The specification's validity predicate for one cell of a placement: within the grid,
  not occupied, and \<open>cooldownUntil\<close> absent or earlier than now.
\<close>

definition spec_eligible :: "CellState list list \<Rightarrow> int \<Rightarrow> int \<times> int \<Rightarrow> bool" where
  "spec_eligible g now p = (case p of (x, y) \<Rightarrow>
     0 \<le> x \<and> x < GRID_SIZE \<and> 0 \<le> y \<and> y < GRID_SIZE \<and>
     (case cell_at g x y of
        None \<Rightarrow> False
      | Some c \<Rightarrow> \<not> occupied c \<and> (case cooldownUntil c of None \<Rightarrow> True | Some t \<Rightarrow> t < now)))"

text \<open>The record a successful placement writes into each covered cell.\<close>

definition shipCell :: "string \<Rightarrow> string \<Rightarrow> CellState" where
  "shipCell sid ow =
     \<lparr>occupied = True, hit = False, ship = Some \<lparr>ref_id = sid, ref_owner = ow\<rparr>, cooldownUntil = None\<rparr>"

text \<open>
  The chunk array as the provider creates it and every operation keeps it: chunk
  \<open>index\<close> has the coordinates \<open>(index mod CHUNK_SIZE, index div CHUNK_SIZE)\<close>.
\<close>

definition chunk_layout :: "Chunk list \<Rightarrow> bool" where
  "chunk_layout chs =
     (map (\<lambda>chunk. (chunk_x chunk, chunk_y chunk)) chs =
      map (\<lambda>index. (int index mod CHUNK_SIZE, int index div CHUNK_SIZE)) [0..<nat TOTAL_CHUNKS])"

text \<open>
  What a FIRE at \<open>(x, y)\<close> does to the state of the team fired at, and what it returns:
  the updaters of \<open>processAction\<close>'s FIRE branch composed in their order. Lemma
  \<open>fireShot_fireTarget\<close> proves that \<open>fireShot\<close> is this, on the opposing team's state.
\<close>

definition fireTarget :: "int \<Rightarrow> int \<Rightarrow> int \<Rightarrow> TeamGridState \<Rightarrow> (error + bool) \<times> TeamGridState" where
  "fireTarget now x y t =
     (let t1 = recordActivity now (x div CELLS_PER_CHUNK) (y div CELLS_PER_CHUNK) t in
      case cell_at (grid t) x y of
        None \<Rightarrow> (Inl TypeError, t1)
      | Some cell \<Rightarrow>
          if hit cell then (Inr False, t1)
          else
            let t2 = markHit x y t1 in
            (case ship cell of
               None \<Rightarrow> (Inr True, t2)
             | Some r \<Rightarrow>
                 if occupied cell then
                   (let shipWasDestroyed = False;
                        destroyedShipCells = ([] :: (int \<times> int) list);
                        t3 = t2\<lparr>ships := map (hitShip (ref_id r)) (ships t2)\<rparr>
                    in if shipWasDestroyed \<and> length destroyedShipCells > 0
                       then (Inr True, applyCooldownToShipArea now destroyedShipCells t3)
                       else (Inr True, t3))
                 else (Inr True, t2)))"

text \<open>
  The specification's cooldown area of a ship: its cells, and every cell of the grid
  within one step (the eight neighbours) of one of them.
\<close>

definition inArea :: "(int \<times> int) list \<Rightarrow> int \<times> int \<Rightarrow> bool" where
  "inArea cs p =
     (p \<in> set cs \<or>
      (inBounds p \<and> list_ex (\<lambda>c. \<bar>fst p - fst c\<bar> \<le> 1 \<and> \<bar>snd p - snd c\<bar> \<le> 1) cs))"

text \<open>
  The specification's scenario: blue places a two-cell horizontal ship at \<open>(10, 10)\<close>,
  then red hits \<open>(10, 10)\<close>.
\<close>

definition scenarioShip :: Ship where
  "scenarioShip = \<lparr>ship_id = ''s1'', ship_owner = ''anon-k3x'', cells = [(10, 10), (11, 10)],
                    hits = 0, destroyed = False\<rparr>"

definition scenarioPlaced :: BattleState where
  "scenarioPlaced = snd (placeShip ''anon-k3x'' 1000 ''s1'' ''s2'' 10 10 2 True blue initialState)"

definition scenarioHitOnce :: BattleState where
  "scenarioHitOnce = snd (fireShot 2000 10 10 red scenarioPlaced)"

text \<open>
  The specification's heat-level algorithm, as section 4.3 words it, on the list of the
  chunks' activity counts: the level of a chunk whose count is \<open>a\<close>.
\<close>

definition spec_heatLevel :: "real list \<Rightarrow> real \<Rightarrow> int" where
  "spec_heatLevel counts a =
     (let active = filter (\<lambda>v. v > 0) counts;
          ranked = rev (sort active);
          activeCount = length active;
          hotCount = max 1 (nat \<lfloor>0.20 * real activeCount\<rfloor>);
          warmCount = max 2 (nat \<lfloor>0.30 * real activeCount\<rfloor>);
          hotThreshold = ranked ! min (hotCount - 1) (activeCount - 1);
          warmThreshold = ranked ! min (hotCount + warmCount - 1) (activeCount - 1);
          minThreshold = 0.03 * Max (set active)
      in if a \<ge> hotThreshold \<and> a > 0 then 3
         else if a \<ge> warmThreshold then 2
         else if a \<ge> minThreshold then 1
         else 0)"

definition recomputeHeatLevels_spec :: "Chunk list \<Rightarrow> Chunk list" where
  "recomputeHeatLevels_spec chs =
     (if filter (\<lambda>chunk. activityCount chunk > 0) chs = [] then chs
      else map (\<lambda>chunk. chunk\<lparr>heatLevel := spec_heatLevel (map activityCount chs) (activityCount chunk)\<rparr>) chs)"

text \<open>A state to run a decay tick on: two chunks of the blue grid saw activity at time 1000.\<close>

definition decayExample :: BattleState where
  "decayExample =
     initialState\<lparr>blueTeamGrid := initialTeamGrid\<lparr>chunks :=
       initialChunks
         [0 := (initialChunks ! 0)\<lparr>activityCount := 5, lastActivity := 1000, heatLevel := 3\<rparr>,
          2 := (initialChunks ! 2)\<lparr>activityCount := 0.05, lastActivity := 1000, heatLevel := 1\<rparr>]\<rparr>\<rparr>"

text \<open>The state of the scenario after red's second shot, at \<open>(11, 10)\<close>, which destroys the ship.\<close>

definition scenarioDestroyed :: BattleState where
  "scenarioDestroyed = snd (fireShot 3000 11 10 red scenarioHitOnce)"

text \<open>
  A team state whose list of ships holds 29 ships, all recorded as destroyed, and whose
  \<open>totalHits\<close> is 200. \<open>calculateAdditionalStats\<close> reads the ships and that counter only.
\<close>

definition statsExampleShip :: "nat \<Rightarrow> Ship" where
  "statsExampleShip i =
     \<lparr>ship_id = replicate (Suc i) (CHR ''s''), ship_owner = ''anon-k3x'',
      cells = [(3 * int i, 0), (3 * int i + 1, 0)], hits = 2, destroyed = True\<rparr>"

definition statsExample :: TeamGridState where
  "statsExample =
     initialTeamGrid\<lparr>ships := map statsExampleShip [0..<29],
                     stats := \<lparr>totalShips = 29, totalHits = 200, totalChunks = TOTAL_CHUNKS\<rparr>\<rparr>"

text \<open>The \<open>cooldownUntil\<close> of the cell \<open>(x, y)\<close> of a team's grid, if the cell has one.\<close>

definition cooldownAt :: "BattleState \<Rightarrow> Team \<Rightarrow> int \<Rightarrow> int \<Rightarrow> int option" where
  "cooldownAt s tm x y =
     (case cell_at (grid (teamGrid tm s)) x y of None \<Rightarrow> None | Some c \<Rightarrow> cooldownUntil c)"

text \<open>
  A run of the program is a sequence of events: a call of \<open>placeShip\<close>, a call of
  \<open>fireShot\<close>, or a tick of the decay interval, each with the clock reading and the
  identifiers it gets. Each event is applied to the state the previous one left.
\<close>

datatype Op =
    PlaceOp string int string string int int int bool Team
  | FireOp int int int Team
  | DecayOp int

fun applyOp :: "Op \<Rightarrow> BattleState \<Rightarrow> BattleState" where
  "applyOp (PlaceOp player now newId gen x y sz horizontal tm) s =
     snd (placeShip player now newId gen x y sz horizontal tm s)"
| "applyOp (FireOp now x y tm) s = snd (fireShot now x y tm s)"
| "applyOp (DecayOp now) s = decayTick now s"

definition run :: "Op list \<Rightarrow> BattleState \<Rightarrow> BattleState" where
  "run ops s = foldl (\<lambda>s' op. applyOp op s') s ops"





section \<open>Properties\<close>

subsection \<open>Reading and writing a well-formed grid\<close>

lemma wf_grid_row: "wf_grid g \<Longrightarrow> 0 \<le> y \<Longrightarrow> y < GRID_SIZE \<Longrightarrow> int (length (g ! nat y)) = GRID_SIZE"
proof -
  assume a: "wf_grid g" "0 \<le> y" "y < GRID_SIZE"
  then have "nat y < length g" by (simp add: wf_grid_def nat_less_iff)
  with a show ?thesis by (simp add: wf_grid_def list_all_length)
qed

lemma cell_at_wf:
  "wf_grid g \<Longrightarrow> cell_at g x y = (if inBounds (x, y) then Some (g ! nat y ! nat x) else None)"
  using wf_grid_row[of g y]
  by (auto simp: cell_at_def js_index_def inBounds_def wf_grid_def split: option.splits)

lemma wf_set_cell: "wf_grid g \<Longrightarrow> wf_grid (set_cell g x y c)"
proof -
  assume a: "wf_grid g"
  have "int (length (g[nat y := (g ! nat y)[nat x := c]] ! n)) = GRID_SIZE" if "n < length g" for n
    using a that by (cases "n = nat y") (simp_all add: wf_grid_def list_all_length)
  with a show ?thesis by (simp add: wf_grid_def set_cell_def list_all_length)
qed

lemma cell_at_set_cell:
  "wf_grid g \<Longrightarrow> inBounds (x, y) \<Longrightarrow>
     cell_at (set_cell g x y c) x' y' = (if x' = x \<and> y' = y then Some c else cell_at g x' y')"
  using wf_grid_row[of g y]
  apply (simp add: cell_at_wf wf_set_cell)
  apply (auto simp: set_cell_def inBounds_def wf_grid_def nth_list_update)
  done

lemma wf_generateEmptyGrid: "wf_grid generateEmptyGrid"
  by (simp add: wf_grid_def generateEmptyGrid_def GRID_SIZE_def list_all_iff)

subsection \<open>Ship placement\<close>

lemma spec_eligible_inBounds: "spec_eligible g now p \<Longrightarrow> inBounds p"
  by (auto simp: spec_eligible_def inBounds_def)

lemma isValidShipPlacement_wf:
  "wf_grid g \<Longrightarrow> 0 < now \<Longrightarrow>
     isValidShipPlacement g cs now = Inr (list_all (spec_eligible g now) cs)"
proof (induction cs)
  case Nil
  then show ?case by simp
next
  case (Cons p cs)
  obtain x y where p: "p = (x, y)" by (cases p)
  show ?case
  proof (cases "inBounds (x, y)")
    case False
    then show ?thesis by (auto simp: p spec_eligible_def inBounds_def)
  next
    case True
    with Cons show ?thesis
      by (auto simp: p spec_eligible_def inBounds_def cell_at_wf cooldownOver_def
               split: option.splits)
  qed
qed

lemma placeCells_Cons:
  "placeCells r (p # cs) g =
     placeCells r cs (set_cell g (fst p) (snd p)
        \<lparr>occupied = True, hit = False, ship = Some r, cooldownUntil = None\<rparr>)"
  by (simp add: placeCells_def)

lemma placeCells_wf: "wf_grid g \<Longrightarrow> wf_grid (placeCells r cs g)"
  by (induction cs arbitrary: g) (simp_all add: placeCells_Cons wf_set_cell, simp add: placeCells_def)

lemma cell_at_placeCells:
  "wf_grid g \<Longrightarrow> list_all inBounds cs \<Longrightarrow>
     cell_at (placeCells r cs g) x y =
       (if (x, y) \<in> set cs
        then Some \<lparr>occupied = True, hit = False, ship = Some r, cooldownUntil = None\<rparr>
        else cell_at g x y)"
proof (induction cs arbitrary: g)
  case Nil
  then show ?case by (simp add: placeCells_def)
next
  case (Cons p cs)
  obtain px py where p: "p = (px, py)" by (cases p)
  from Cons.prems have ib: "inBounds (px, py)" and rest: "list_all inBounds cs"
    by (simp_all add: p)
  have "cell_at (placeCells r cs (set_cell g px py
          \<lparr>occupied = True, hit = False, ship = Some r, cooldownUntil = None\<rparr>)) x y =
        (if (x, y) \<in> set cs
         then Some \<lparr>occupied = True, hit = False, ship = Some r, cooldownUntil = None\<rparr>
         else cell_at (set_cell g px py
          \<lparr>occupied = True, hit = False, ship = Some r, cooldownUntil = None\<rparr>) x y)"
    using Cons.IH[OF wf_set_cell[OF Cons.prems(1)] rest] .
  then show ?case
    using cell_at_set_cell[OF Cons.prems(1) ib]
    by (auto simp: placeCells_Cons p)
qed

lemma placeShipCells_length: "length (placeShipCells x y sz h) = nat sz"
  by (simp add: placeShipCells_def)

lemma placeShipCells_nth:
  "i < nat sz \<Longrightarrow> placeShipCells x y sz h ! i = (if h then (x + int i, y) else (x, y + int i))"
  by (simp add: placeShipCells_def)

lemma placeShip_unfold:
  "wf_grid (grid (teamGrid tm s)) \<Longrightarrow> 0 < now \<Longrightarrow> player \<noteq> [] \<Longrightarrow>
   placeShip player now newId gen x y sz h tm s =
     (if list_all (spec_eligible (grid (teamGrid tm s)) now) (placeShipCells x y sz h)
      then (Inr True, setTeamGrid tm (registerShip
              \<lparr>ship_id = (if newId = [] then gen else newId), ship_owner = player,
               cells = placeShipCells x y sz h, hits = 0, destroyed = False\<rparr>) s)
      else (Inr False, s))"
  by (simp add: placeShip_def processAction_def isValidShipPlacement_wf Let_def)

lemma teamGrid_setTeamGrid_same: "teamGrid tm (setTeamGrid tm f s) = f (teamGrid tm s)"
  by (cases tm) simp_all

lemma teamGrid_setTeamGrid_other: "teamGrid (opposite tm) (setTeamGrid tm f s) = teamGrid (opposite tm) s"
  by (cases tm) simp_all

lemma teamGrid_setTeamGrid_other': "teamGrid tm (setTeamGrid (opposite tm) f s) = teamGrid tm s"
  by (cases tm) simp_all

text \<open>
  C1. \<open>placeShip\<close> computes exactly \<open>sz\<close> contiguous cells from \<open>(x, y)\<close> in the requested
  orientation. It returns true iff every one of them is within the grid, not occupied and
  not under an active cooldown; then exactly those cells hold the ship's reference, the
  ship is appended to the acting team's ships, the team's \<open>totalShips\<close> grows by one, and
  nothing else changes. Otherwise it returns false and the state is the one before.
  The clock is positive, and \<open>currentPlayer\<close> is a non-empty string, as
  \<open>generateOwner\<close> makes it.
\<close>

theorem placeShip_all_or_nothing:
  assumes wf: "wf_grid (grid (teamGrid tm s))" and now: "0 < now" and player: "player \<noteq> []"
  shows "let cs = placeShipCells x y sz horizontal;
             g = grid (teamGrid tm s);
             sid = (if newId = [] then gen else newId);
             res = placeShip player now newId gen x y sz horizontal tm s;
             t' = teamGrid tm (snd res)
         in length cs = nat sz \<and>
            (\<forall>i<nat sz. cs ! i = (if horizontal then (x + int i, y) else (x, y + int i))) \<and>
            fst res = Inr (list_all (spec_eligible g now) cs) \<and>
            (if list_all (spec_eligible g now) cs then
               (\<forall>cx cy. cell_at (grid t') cx cy =
                  (if (cx, cy) \<in> set cs then Some (shipCell sid player) else cell_at g cx cy)) \<and>
               ships t' = ships (teamGrid tm s) @
                  [\<lparr>ship_id = sid, ship_owner = player, cells = cs, hits = 0, destroyed = False\<rparr>] \<and>
               stats t' = (stats (teamGrid tm s))\<lparr>totalShips := totalShips (stats (teamGrid tm s)) + 1\<rparr> \<and>
               chunks t' = chunks (teamGrid tm s) \<and>
               teamGrid (opposite tm) (snd res) = teamGrid (opposite tm) s
             else snd res = s)"
proof (cases "list_all (spec_eligible (grid (teamGrid tm s)) now) (placeShipCells x y sz horizontal)")
  case False
  then show ?thesis
    by (simp add: placeShip_unfold[OF wf now player] Let_def placeShipCells_length placeShipCells_nth)
next
  case True
  then have ib: "list_all inBounds (placeShipCells x y sz horizontal)"
    by (auto simp: list_all_iff intro: spec_eligible_inBounds)
  show ?thesis
    using True
    by (simp add: placeShip_unfold[OF wf now player] Let_def placeShipCells_length
          placeShipCells_nth teamGrid_setTeamGrid_same teamGrid_setTeamGrid_other
          registerShip_def cell_at_placeCells[OF wf ib] shipCell_def)
qed

lemma cell_at_generateEmptyGrid:
  "cell_at generateEmptyGrid x y = (if inBounds (x, y) then Some emptyCell else None)"
  unfolding cell_at_wf[OF wf_generateEmptyGrid]
  by (auto simp: generateEmptyGrid_def inBounds_def GRID_SIZE_def)

theorem placeShip_all_or_nothing_witness:
  "wf_grid (grid (teamGrid blue initialState)) \<and> (0::int) < 1000 \<and> ''anon-k3x'' \<noteq> [] \<and>
   fst (placeShip ''anon-k3x'' 1000 ''s1'' ''s2'' 10 10 2 True blue initialState) = Inr True \<and>
   cell_at (grid (teamGrid blue
      (snd (placeShip ''anon-k3x'' 1000 ''s1'' ''s2'' 10 10 2 True blue initialState)))) 11 10 =
     Some (shipCell ''s1'' ''anon-k3x'') \<and>
   fst (placeShip ''anon-k3x'' 1000 ''s1'' ''s2'' 999 10 2 True blue initialState) = Inr False"
proof -
  have wf: "wf_grid (grid (teamGrid blue initialState))"
    by (simp add: initialState_def initialTeamGrid_def wf_generateEmptyGrid)
  have g: "grid (blueTeamGrid initialState) = generateEmptyGrid"
    by (simp add: initialState_def initialTeamGrid_def)
  have cs: "placeShipCells 10 10 2 True = [(10, 10), (11, 10)]"
           "placeShipCells 999 10 2 True = [(999, 10), (1000, 10)]"
    by (simp_all add: placeShipCells_def upto.simps)
  have ok: "list_all (spec_eligible generateEmptyGrid 1000) [(10, 10), (11, 10)]"
    by (simp add: spec_eligible_def cell_at_generateEmptyGrid inBounds_def GRID_SIZE_def emptyCell_def)
  have bad: "\<not> list_all (spec_eligible generateEmptyGrid 1000) [(999, 10), (1000, 10)]"
    by (simp add: spec_eligible_def GRID_SIZE_def)
  show ?thesis
    using placeShip_all_or_nothing[OF wf, of 1000 "''anon-k3x''" 10 10 2 True "''s1''" "''s2''"]
          placeShip_all_or_nothing[OF wf, of 1000 "''anon-k3x''" 999 10 2 True "''s1''" "''s2''"]
          wf ok bad
    by (simp add: Let_def g cs)
qed

lemma spec_eligible_hit_irrelevant:
  assumes wf: "wf_grid g" and c: "cell_at g cx cy = Some c"
  shows "spec_eligible (set_cell g cx cy (c\<lparr>hit := b\<rparr>)) now = spec_eligible g now"
proof
  fix p :: "int \<times> int"
  from wf c have ib: "inBounds (cx, cy)"
    by (simp add: cell_at_wf split: if_splits)
  obtain px py where p: "p = (px, py)" by (cases p)
  show "spec_eligible (set_cell g cx cy (c\<lparr>hit := b\<rparr>)) now p = spec_eligible g now p"
    using c by (simp add: p spec_eligible_def cell_at_set_cell[OF wf ib])
qed

text \<open>
  C10. Placement validity does not read the hit flag: changing the flag of any cell
  changes the verdict on no placement. So a placement over an unoccupied cell that was
  hit and whose cooldown is absent or expired succeeds when all its cells are valid, and
  every covered cell is overwritten with the fresh record: occupied, not hit, the new
  ship's reference, and no \<open>cooldownUntil\<close>.
\<close>

theorem placeShip_over_hit_cell:
  assumes wf: "wf_grid (grid (teamGrid tm s))" and now: "0 < now" and player: "player \<noteq> []"
    and valid: "list_all (spec_eligible (grid (teamGrid tm s)) now) (placeShipCells x y sz horizontal)"
    and cov: "(cx, cy) \<in> set (placeShipCells x y sz horizontal)"
    and c: "cell_at (grid (teamGrid tm s)) cx cy = Some c" and h: "hit c"
  shows "(\<forall>b cs'. isValidShipPlacement (set_cell (grid (teamGrid tm s)) cx cy (c\<lparr>hit := b\<rparr>)) cs' now =
                  isValidShipPlacement (grid (teamGrid tm s)) cs' now) \<and>
         fst (placeShip player now newId gen x y sz horizontal tm s) = Inr True \<and>
         (\<forall>p \<in> set (placeShipCells x y sz horizontal).
            cell_at (grid (teamGrid tm (snd (placeShip player now newId gen x y sz horizontal tm s))))
              (fst p) (snd p) =
            Some \<lparr>occupied = True, hit = False,
                  ship = Some \<lparr>ref_id = (if newId = [] then gen else newId), ref_owner = player\<rparr>,
                  cooldownUntil = None\<rparr>)"
proof -
  have ib: "list_all inBounds (placeShipCells x y sz horizontal)"
    using valid by (auto simp: list_all_iff intro: spec_eligible_inBounds)
  have "isValidShipPlacement (set_cell (grid (teamGrid tm s)) cx cy (c\<lparr>hit := b\<rparr>)) cs' now =
        isValidShipPlacement (grid (teamGrid tm s)) cs' now" for b cs'
    by (simp add: isValidShipPlacement_wf[OF wf_set_cell[OF wf] now] isValidShipPlacement_wf[OF wf now]
          spec_eligible_hit_irrelevant[OF wf c])
  moreover have "fst (placeShip player now newId gen x y sz horizontal tm s) = Inr True"
    using valid by (simp add: placeShip_unfold[OF wf now player])
  moreover have "cell_at (grid (teamGrid tm (snd (placeShip player now newId gen x y sz horizontal tm s))))
              (fst p) (snd p) =
            Some \<lparr>occupied = True, hit = False,
                  ship = Some \<lparr>ref_id = (if newId = [] then gen else newId), ref_owner = player\<rparr>,
                  cooldownUntil = None\<rparr>"
    if "p \<in> set (placeShipCells x y sz horizontal)" for p
    using valid that
    by (simp add: placeShip_unfold[OF wf now player] teamGrid_setTeamGrid_same registerShip_def
          cell_at_placeCells[OF wf ib])
  ultimately show ?thesis by blast
qed

theorem placeShip_over_hit_cell_witness:
  "fst (placeShip ''anon-k3x'' 1000 ''s1'' ''s2'' 10 10 2 True blue
     (initialState\<lparr>blueTeamGrid := initialTeamGrid\<lparr>grid :=
        set_cell generateEmptyGrid 10 10
          \<lparr>occupied = False, hit = True, ship = None, cooldownUntil = Some 5\<rparr>\<rparr>\<rparr>)) = Inr True \<and>
   cell_at (grid (teamGrid blue (snd (placeShip ''anon-k3x'' 1000 ''s1'' ''s2'' 10 10 2 True blue
     (initialState\<lparr>blueTeamGrid := initialTeamGrid\<lparr>grid :=
        set_cell generateEmptyGrid 10 10
          \<lparr>occupied = False, hit = True, ship = None, cooldownUntil = Some 5\<rparr>\<rparr>\<rparr>))))) 10 10 =
     Some \<lparr>occupied = True, hit = False,
           ship = Some \<lparr>ref_id = ''s1'', ref_owner = ''anon-k3x''\<rparr>, cooldownUntil = None\<rparr>"
proof -
  let ?c = "\<lparr>occupied = False, hit = True, ship = None, cooldownUntil = Some 5\<rparr>"
  let ?g = "set_cell generateEmptyGrid 10 10 ?c"
  let ?s = "initialState\<lparr>blueTeamGrid := initialTeamGrid\<lparr>grid := ?g\<rparr>\<rparr>"
  have g: "grid (teamGrid blue ?s) = ?g" by simp
  have ib: "inBounds (10, 10)" by (simp add: inBounds_def GRID_SIZE_def)
  have wf: "wf_grid (grid (teamGrid blue ?s))"
    unfolding g by (rule wf_set_cell[OF wf_generateEmptyGrid])
  have cs: "placeShipCells 10 10 2 True = [(10, 10), (11, 10)]"
    by (simp add: placeShipCells_def upto.simps)
  have valid: "list_all (spec_eligible (grid (teamGrid blue ?s)) 1000) (placeShipCells 10 10 2 True)"
    unfolding g cs
    by (simp add: spec_eligible_def cell_at_set_cell[OF wf_generateEmptyGrid ib]
          cell_at_generateEmptyGrid inBounds_def GRID_SIZE_def emptyCell_def)
  have cov: "(10, 10) \<in> set (placeShipCells 10 10 2 True)" by (simp add: cs)
  have c: "cell_at (grid (teamGrid blue ?s)) 10 10 = Some ?c"
    unfolding g by (simp add: cell_at_set_cell[OF wf_generateEmptyGrid ib])
  have h: "hit ?c" by simp
  show ?thesis
    using placeShip_over_hit_cell[OF wf _ _ valid cov c h, of "''anon-k3x''" "''s1''" "''s2''"]
    by (simp add: cs)
qed

subsection \<open>Derived statistics\<close>

lemma hitRatio_no_hits: "totalHits (stats t) \<le> 0 \<Longrightarrow> hitRatio (teamStats t) = 0"
  by (simp add: teamStats_def calculateAdditionalStats_def Let_def)

lemma destroyedShips_count:
  "destroyedShips (teamStats t) = int (length (filter destroyed (ships t)))"
  by (simp add: teamStats_def calculateAdditionalStats_def Let_def)

lemma bitLength_numeral:
  "bitLength 0 = 0"
  "bitLength (Suc 0) = 1"
  "bitLength (numeral k) = Suc (bitLength (numeral k div 2))"
  by (simp_all add: bitLength.simps[of 0] bitLength.simps[of "Suc 0"] bitLength.simps[of "numeral k"])

lemmas double_defs =
  divDouble_def mulDouble_def toDouble_def floorLog2_def roundHalfEven_def Let_def bitLength_numeral

text \<open>
  The model against the definition of IEEE rounding to nearest: for positive \<open>p\<close> and
  \<open>q\<close>, \<open>toDouble p q\<close> has a mantissa of 53 bits, and no number with that exponent is
  nearer to \<open>p / q\<close>, the distance being at most half a unit of the last place;
  \<open>roundHalfEven\<close> takes the even mantissa of two that are equally near. \<open>mulDouble\<close> is
  \<open>toDouble\<close> of the exact product.
\<close>

lemma bitLength_bounds:
  "0 < n \<Longrightarrow> 2 ^ (bitLength n - 1) \<le> n \<and> n < 2 ^ bitLength n"
proof (induction n rule: bitLength.induct)
  case (1 n)
  show ?case
  proof (cases "n div 2 = 0")
    case True
    with 1(2) have "n = 1" by (simp add: div_eq_0_iff) 
    then show ?thesis by (simp add: bitLength_numeral(2))
  next
    case False
    then have h: "0 < n div 2" by simp
    have n0: "n \<noteq> 0" using 1(2) by simp
    from 1(1)[OF n0 h] have lo: "2 ^ (bitLength (n div 2) - 1) \<le> n div 2"
      and hi: "n div 2 < 2 ^ bitLength (n div 2)" by simp_all
    have b: "bitLength n = Suc (bitLength (n div 2))"
      using n0 by (simp add: bitLength.simps[of n])
    have p: "0 < bitLength (n div 2)"
      using h by (simp add: bitLength.simps[of "n div 2"])
    have e: "(2::nat) ^ bitLength (n div 2) = 2 * 2 ^ (bitLength (n div 2) - 1)"
      using p by (cases "bitLength (n div 2)") simp_all
    have d: "2 * (n div 2) \<le> n" "n < 2 * (n div 2) + 2" by arith+
    have "(2::nat) ^ bitLength (n div 2) \<le> n" using lo e d(1) by linarith
    moreover have "n < 2 * 2 ^ bitLength (n div 2)" using hi d(2) by linarith
    ultimately show ?thesis unfolding b by simp
  qed
qed

lemma roundHalfEven_nearest:
  assumes "0 < q"
  shows "\<bar>real_of_int (roundHalfEven p q) - real_of_int p / real_of_int q\<bar> \<le> 1 / 2"
proof -
  define f r where "f = p div q" and "r = p mod q"
  have pq: "p = f * q + r" by (simp add: f_def r_def)
  have r: "0 \<le> r" "r < q" using assms by (simp_all add: r_def)
  have d: "real_of_int p / real_of_int q = real_of_int f + real_of_int r / real_of_int q"
    using assms by (simp add: pq field_simps)
  have q: "0 < real_of_int q" using assms by simp
  consider "2 * r < q" | "2 * r > q" | "2 * r = q" by linarith
  then show ?thesis
  proof cases
    case 1
    then have "roundHalfEven p q = f" by (simp add: roundHalfEven_def Let_def f_def r_def)
    moreover have "real_of_int r / real_of_int q \<le> 1 / 2"
      using 1 q by (simp add: field_simps)
    moreover have "0 \<le> real_of_int r / real_of_int q" using r q by simp
    ultimately show ?thesis unfolding d by simp
  next
    case 2
    then have "roundHalfEven p q = f + 1" by (simp add: roundHalfEven_def Let_def f_def r_def)
    moreover have "real_of_int r / real_of_int q \<ge> 1 / 2"
      using 2 q by (simp add: field_simps)
    moreover have "real_of_int r / real_of_int q \<le> 1" using r q by (simp add: field_simps)
    ultimately show ?thesis unfolding d by simp
  next
    case 3
    then have "roundHalfEven p q = f \<or> roundHalfEven p q = f + 1"
      by (simp add: roundHalfEven_def Let_def f_def r_def)
    moreover have "real_of_int r / real_of_int q = 1 / 2"
      using 3 q by (simp add: field_simps)
    ultimately show ?thesis unfolding d by auto
  qed
qed

lemma bitLength_real:
  assumes "0 < p"
  shows "2 powi (int (bitLength (nat p)) - 1) \<le> real_of_int p"
    and "real_of_int p < 2 powi (int (bitLength (nat p)))"
proof -
  define b where "b = bitLength (nat p)"
  have n: "0 < nat p" using assms by simp
  have lo: "2 ^ (b - 1) \<le> nat p" and hi: "nat p < 2 ^ b"
    using bitLength_bounds[OF n] by (simp_all add: b_def)
  have b1: "1 \<le> b" using hi n by (cases b) simp_all
  have rp: "real_of_int p = real (nat p)" using assms by simp
  have "real (2 ^ (b - 1)) \<le> real (nat p)" using lo by (simp only: of_nat_le_iff)
  then have "(2::real) ^ (b - 1) \<le> real_of_int p" unfolding rp by simp
  moreover have "int b - 1 = int (b - 1)" using b1 by simp
  ultimately show "2 powi (int (bitLength (nat p)) - 1) \<le> real_of_int p"
    unfolding b_def[symmetric] by (simp only: power_int_of_nat)
  have "real (nat p) < real (2 ^ b)" using hi by (simp only: of_nat_less_iff)
  then have "real_of_int p < (2::real) ^ b" unfolding rp by simp
  then show "real_of_int p < 2 powi (int (bitLength (nat p)))"
    unfolding b_def[symmetric] by (simp only: power_int_of_nat)
qed

lemma floorLog2_bounds:
  assumes p: "0 < p" and q: "0 < q"
  shows "2 powi (floorLog2 p q) \<le> real_of_int p / real_of_int q"
    and "real_of_int p / real_of_int q < 2 powi (floorLog2 p q + 1)"
proof -
  define bp bq k where "bp = int (bitLength (nat p))" and "bq = int (bitLength (nat q))"
    and "k = bp - bq"
  define P Q where "P = real_of_int p" and "Q = real_of_int q"
  have P: "0 < P" and Q: "0 < Q" using p q by (simp_all add: P_def Q_def)
  have Plo: "2 powi (bp - 1) \<le> P" and Phi: "P < 2 powi bp"
    using bitLength_real[OF p] by (simp_all add: bp_def P_def)
  have Qlo: "2 powi (bq - 1) \<le> Q" and Qhi: "Q < 2 powi bq"
    using bitLength_real[OF q] by (simp_all add: bq_def Q_def)
  have up: "P / Q < 2 powi (k + 1)"
  proof -
    have "P / Q < 2 powi bp / 2 powi (bq - 1)"
      using Phi Qlo Q P by (intro frac_less) simp_all
    also have "\<dots> = 2 powi (bp - (bq - 1))"
      by (simp add: power_int_diff)
    also have "bp - (bq - 1) = k + 1" by (simp add: k_def)
    finally show ?thesis .
  qed
  have lo: "2 powi (k - 1) \<le> P / Q"
  proof -
    have "k - 1 = (bp - 1) - bq" by (simp add: k_def)
    then have "(2::real) powi (k - 1) = 2 powi (bp - 1) / 2 powi bq"
      by (simp only: power_int_diff[of "2::real", simplified])
    also have "\<dots> \<le> P / Q"
      using Plo Qhi Q P by (intro frac_le) simp_all
    finally show ?thesis .
  qed
  have t: "(if k \<ge> 0 then p \<ge> q * 2 ^ nat k else p * 2 ^ nat (- k) \<ge> q) = (2 powi k \<le> P / Q)"
  proof (cases "k \<ge> 0")
    case True
    have "(q * 2 ^ nat k \<le> p) = (real_of_int (q * 2 ^ nat k) \<le> real_of_int p)"
      by (simp only: of_int_le_iff)
    also have "\<dots> = (Q * 2 ^ nat k \<le> P)" by (simp add: P_def Q_def)
    also have "\<dots> = (2 ^ nat k \<le> P / Q)" using Q by (simp add: field_simps)
    also have "(2::real) ^ nat k = 2 powi k" using True by (simp add: power_int_def)
    finally show ?thesis using True by simp
  next
    case False
    have "(q \<le> p * 2 ^ nat (- k)) = (real_of_int q \<le> real_of_int (p * 2 ^ nat (- k)))"
      by (simp only: of_int_le_iff)
    also have "\<dots> = (Q \<le> P * 2 ^ nat (- k))" by (simp add: P_def Q_def)
    also have "\<dots> = (1 / 2 ^ nat (- k) \<le> P / Q)" using Q by (simp add: field_simps)
    also have "1 / (2::real) ^ nat (- k) = 2 powi k"
      using False by (simp add: power_int_def field_simps)
    finally show ?thesis using False by simp
  qed
  have f: "floorLog2 p q = (if 2 powi k \<le> P / Q then k else k - 1)"
    unfolding floorLog2_def Let_def bp_def[symmetric] bq_def[symmetric] k_def[symmetric] t ..
  show "2 powi (floorLog2 p q) \<le> real_of_int p / real_of_int q"
    unfolding f P_def[symmetric] Q_def[symmetric] using lo by simp
  show "real_of_int p / real_of_int q < 2 powi (floorLog2 p q + 1)"
    unfolding f P_def[symmetric] Q_def[symmetric] using up by (simp add: not_le)
qed

lemma doubleValue_powi: "doubleValue (m, e) = real_of_int m * 2 powi e"
  by (simp add: doubleValue_def power_int_def field_simps)

lemma toDouble_nearest:
  assumes p: "0 < p" and q: "0 < q" and d: "toDouble p q = (m, e)"
  shows "e = floorLog2 p q - 52"
    and "2 ^ 52 \<le> m" and "m \<le> 2 ^ 53"
    and "\<bar>doubleValue (m, e) - real_of_int p / real_of_int q\<bar> \<le> 2 powi e / 2"
proof -
  define P Q S v where "P = real_of_int p" and "Q = real_of_int q"
    and "S = (2::real) powi e" and "v = P / Q / S"
  have P: "0 < P" and Q: "0 < Q" and S: "0 < S" using p q by (simp_all add: P_def Q_def S_def)
  show e: "e = floorLog2 p q - 52"
    using d p by (simp add: toDouble_def Let_def)
  have m: "m = (if e \<ge> 0 then roundHalfEven p (q * 2 ^ nat e)
                else roundHalfEven (p * 2 ^ nat (- e)) q)"
    using d p by (auto simp: toDouble_def Let_def)
  have near: "\<bar>real_of_int m - v\<bar> \<le> 1 / 2"
  proof (cases "e \<ge> 0")
    case True
    have b: "0 < q * 2 ^ nat e" using q by simp
    have "real_of_int p / real_of_int (q * 2 ^ nat e) = v"
      using True by (simp add: v_def P_def Q_def S_def power_int_def)
    then show ?thesis
      using roundHalfEven_nearest[OF b, of p] m True by simp
  next
    case False
    have "real_of_int (p * 2 ^ nat (- e)) / real_of_int q = v"
      using False by (simp add: v_def P_def Q_def S_def power_int_def field_simps)
    then show ?thesis
      using roundHalfEven_nearest[OF q, of "p * 2 ^ nat (- e)"] m False by simp
  qed
  have ee: "e + 52 = floorLog2 p q" "e + 53 = floorLog2 p q + 1" by (simp_all add: e)
  have lo: "2 powi (e + 52) \<le> P / Q" and hi: "P / Q < 2 powi (e + 53)"
    unfolding ee P_def Q_def by (rule floorLog2_bounds[OF p q])+
  have pw: "(2::real) powi (e + 52) = 2 ^ 52 * S" "(2::real) powi (e + 53) = 2 ^ 53 * S"
    by (simp_all add: S_def power_int_add)
  have v: "2 ^ 52 \<le> v" "v < 2 ^ 53"
    unfolding v_def pos_le_divide_eq[OF S] pos_divide_less_eq[OF S]
    using lo hi unfolding pw by simp_all
  define B C where "B = (2::int) ^ 52" and "C = (2::int) ^ 53"
  have vB: "real_of_int B \<le> v" and vC: "v < real_of_int C"
    using v by (simp_all add: B_def C_def)
  have nb: "v - 1 / 2 \<le> real_of_int m" "real_of_int m \<le> v + 1 / 2"
    using near by linarith+
  have "real_of_int (B - 1) < real_of_int m" using nb(1) vB by simp
  then have "B - 1 < m" by (simp only: of_int_less_iff)
  then show "2 ^ 52 \<le> m" unfolding B_def by linarith
  have "real_of_int m < real_of_int (C + 1)" using nb(2) vC by simp
  then have "m < C + 1" by (simp only: of_int_less_iff)
  then show "m \<le> 2 ^ 53" unfolding C_def by linarith
  have "\<bar>real_of_int m * S - P / Q\<bar> = \<bar>real_of_int m - v\<bar> * S"
  proof -
    have "real_of_int m * S - P / Q = (real_of_int m - v) * S"
      using S by (simp add: v_def field_simps)
    then show ?thesis using S by (simp add: abs_mult)
  qed
  also have "\<dots> \<le> 1 / 2 * S" using near S by (intro mult_right_mono) simp_all
  finally show "\<bar>doubleValue (m, e) - real_of_int p / real_of_int q\<bar> \<le> 2 powi e / 2"
    by (simp add: doubleValue_powi S_def P_def Q_def)
qed

lemma mulDouble_product:
  assumes "0 \<le> m"
  shows "\<exists>p q. 0 < q \<and> mulDouble (m, e) c = toDouble p q \<and>
               real_of_int p / real_of_int q = doubleValue (m, e) * real_of_int c"
proof (cases "e \<ge> 0")
  case True
  then have "mulDouble (m, e) c = toDouble (m * c * 2 ^ nat e) 1"
    "real_of_int (m * c * 2 ^ nat e) / real_of_int 1 = doubleValue (m, e) * real_of_int c"
    by (simp_all add: mulDouble_def doubleValue_def)
  then show ?thesis by (intro exI[of _ "m * c * 2 ^ nat e"] exI[of _ 1]) simp
next
  case False
  then have "mulDouble (m, e) c = toDouble (m * c) (2 ^ nat (- e))"
    "real_of_int (m * c) / real_of_int (2 ^ nat (- e)) = doubleValue (m, e) * real_of_int c"
    by (simp_all add: mulDouble_def doubleValue_def)
  then show ?thesis by (intro exI[of _ "m * c"] exI[of _ "2 ^ nat (- e)"]) simp
qed

lemma divDouble_29_200: "divDouble 29 200 = (5224175567749775, - 55)"
  by (simp add: double_defs)

lemma mulDouble_29_200: "mulDouble (5224175567749775, - 55) 100 = (8162774324609023, - 49)"
  by (simp add: double_defs)

lemma Math_round_29_200: "Math_round (doubleValue (8162774324609023, - 49)) = 14"
  unfolding Math_round_def doubleValue_def by simp

text \<open>
  Where the quotient is a double the result is the claim's: 1 destroyed ship in 8 hits
  gives 12.5, rounded to 13. The quotients of 1 and 2 by 3 are rounded twice and still
  give 33 and 67. At 57 of 200, 58 of 400 and 114 of 400 the exact value is 28.5, 14.5
  and 28.5, and the code gives 28, 14 and 28.
\<close>

lemma mulDouble_divDouble_examples:
  "mulDouble (divDouble 1 8) 100 = (7036874417766400, - 49)"
  "mulDouble (divDouble 1 3) 100 = (4691249611844266, - 47)"
  "mulDouble (divDouble 2 3) 100 = (4691249611844266, - 46)"
  "mulDouble (divDouble 3 1) 100 = (5277655813324800, - 44)"
  "mulDouble (divDouble 57 200) 100 = (8022036836253695, - 48)"
  "mulDouble (divDouble 58 400) 100 = (8162774324609023, - 49)"
  "mulDouble (divDouble 114 400) 100 = (8022036836253695, - 48)"
  by (simp_all add: double_defs)

lemma Math_round_examples:
  "Math_round (doubleValue (mulDouble (divDouble 1 8) 100)) = 13"
  "Math_round (doubleValue (mulDouble (divDouble 1 3) 100)) = 33"
  "Math_round (doubleValue (mulDouble (divDouble 2 3) 100)) = 67"
  "Math_round (doubleValue (mulDouble (divDouble 3 1) 100)) = 300"
  "Math_round (doubleValue (mulDouble (divDouble 57 200) 100)) = 28"
  "Math_round (doubleValue (mulDouble (divDouble 58 400) 100)) = 14"
  "Math_round (doubleValue (mulDouble (divDouble 114 400) 100)) = 28"
  unfolding mulDouble_divDouble_examples
  by (simp_all add: Math_round_def doubleValue_def)

text \<open>
  Claim C7. \<open>hitRatio\<close> is to be \<open>round(100 * destroyedShips / totalHits)\<close>. The code
  divides first and multiplies the rounded quotient by 100, in doubles. For a team with 29
  destroyed ships and 200 hits, \<open>100 * 29 / 200\<close> is 14.5, which rounds to 15; the
  double nearest to \<open>29 / 200\<close> lies below it, its product with 100 is rounded to
  \<open>8162774324609023 / 2 ^ 49\<close>, below 14.5, and \<open>hitRatio\<close> is 14.
\<close>

theorem hitRatio_29_destroyed_200_hits:
  assumes "length (filter destroyed (ships t)) = 29" and "totalHits (stats t) = 200"
  shows "destroyedShips (teamStats t) = 29 \<and>
         hitRatio (teamStats t) = 14 \<and>
         Math_round (100 * real_of_int (destroyedShips (teamStats t))
                       / real_of_int (totalHits (stats t))) = 15"
proof -
  have d: "destroyedShips (teamStats t) = 29"
    using assms(1) by (simp add: teamStats_def calculateAdditionalStats_def Let_def)
  have h: "hitRatio (teamStats t) = Math_round (doubleValue (mulDouble (divDouble 29 200) 100))"
    using assms by (simp add: teamStats_def calculateAdditionalStats_def Let_def)
  have r: "hitRatio (teamStats t) = 14"
    unfolding h divDouble_29_200 mulDouble_29_200 by (rule Math_round_29_200)
  have e: "Math_round (100 * real_of_int 29 / real_of_int 200) = 15"
    unfolding Math_round_def by simp
  show ?thesis using d r e assms(2) by simp
qed

theorem hitRatio_29_destroyed_200_hits_witness:
  "length (filter destroyed (ships statsExample)) = 29 \<and>
   totalHits (stats statsExample) = 200 \<and>
   hitRatio (teamStats statsExample) = 14"
proof -
  have l: "length (filter destroyed (ships statsExample)) = 29"
    by (simp add: statsExample_def statsExampleShip_def filter_map o_def)
  have t: "totalHits (stats statsExample) = 200"
    by (simp add: statsExample_def)
  show ?thesis using hitRatio_29_destroyed_200_hits[OF l t] l t by simp
qed

subsection \<open>Firing\<close>

lemma fireShot_fireTarget:
  "fireShot now x y tm s =
     (fst (fireTarget now x y (teamGrid (opposite tm) s)),
      setTeamGrid (opposite tm) (\<lambda>_. snd (fireTarget now x y (teamGrid (opposite tm) s))) s)"
  by (cases tm)
     (simp_all add: fireShot_def processAction_def updateChunkActivity_def getChunkFromCoords_def
        fireTarget_def Let_def split: option.splits)

lemma fireShot_actor_unchanged: "teamGrid tm (snd (fireShot now x y tm s)) = teamGrid tm s"
  by (simp add: fireShot_fireTarget teamGrid_setTeamGrid_other')

lemma fireShot_target:
  "teamGrid (opposite tm) (snd (fireShot now x y tm s)) = snd (fireTarget now x y (teamGrid (opposite tm) s))"
  by (simp add: fireShot_fireTarget teamGrid_setTeamGrid_same)

lemma recordActivity_fields [simp]:
  "grid (recordActivity now cx cy t) = grid t"
  "ships (recordActivity now cx cy t) = ships t"
  "stats (recordActivity now cx cy t) = stats t"
  by (simp_all add: recordActivity_def Let_def)

lemma markHit_fields [simp]:
  "ships (markHit x y t) = ships t"
  "chunks (markHit x y t) = chunks t"
  by (simp_all add: markHit_def)

lemma applyCooldown_fields [simp]:
  "ships (applyCooldownToShipArea now cs t) = ships t"
  "chunks (applyCooldownToShipArea now cs t) = chunks t"
  "stats (applyCooldownToShipArea now cs t) = stats t"
  by (simp_all add: applyCooldownToShipArea_def Let_def)

lemma fireTarget_chunks:
  "chunks (snd (fireTarget now x y t)) =
     chunks (recordActivity now (x div CELLS_PER_CHUNK) (y div CELLS_PER_CHUNK) t)"
  by (simp add: fireTarget_def Let_def split: option.splits)

lemma fireTarget_hit:
  "cell_at (grid t) x y = Some c \<Longrightarrow> hit c \<Longrightarrow>
     fireTarget now x y t = (Inr False, recordActivity now (x div CELLS_PER_CHUNK) (y div CELLS_PER_CHUNK) t)"
  by (simp add: fireTarget_def Let_def)

subsection \<open>Heat levels keep everything but the heat level\<close>

lemma assignHeat_other:
  "chunk_x (assignHeat a b c ch) = chunk_x ch"
  "chunk_y (assignHeat a b c ch) = chunk_y ch"
  "lastActivity (assignHeat a b c ch) = lastActivity ch"
  "activityCount (assignHeat a b c ch) = activityCount ch"
  by (simp_all add: assignHeat_def)

lemma updateHeatLevels_length [simp]: "length (updateHeatLevels chs) = length chs"
  by (simp add: updateHeatLevels_def Let_def)

lemma updateHeatLevels_nth:
  assumes "i < length chs"
  shows "chunk_x (updateHeatLevels chs ! i) = chunk_x (chs ! i)"
    and "chunk_y (updateHeatLevels chs ! i) = chunk_y (chs ! i)"
    and "lastActivity (updateHeatLevels chs ! i) = lastActivity (chs ! i)"
    and "activityCount (updateHeatLevels chs ! i) = activityCount (chs ! i)"
  using assms by (simp_all add: updateHeatLevels_def Let_def assignHeat_other)

subsection \<open>Finding the chunk of a cell\<close>

lemma findIndex_first:
  "i < length xs \<Longrightarrow> P (xs ! i) \<Longrightarrow> (\<forall>j<i. \<not> P (xs ! j)) \<Longrightarrow> findIndex P xs = Some i"
proof (induction xs arbitrary: i)
  case Nil
  then show ?case by simp
next
  case (Cons v vs)
  show ?case
  proof (cases i)
    case 0
    with Cons.prems show ?thesis by simp
  next
    case (Suc k)
    with Cons.prems have "\<not> P v" by auto
    moreover have "findIndex P vs = Some k"
      using Cons.prems Suc by (intro Cons.IH) auto
    ultimately show ?thesis by (simp add: Suc)
  qed
qed

lemma chunk_layout_length: "chunk_layout chs \<Longrightarrow> length chs = 100"
proof -
  assume "chunk_layout chs"
  then have "length (map (\<lambda>chunk. (chunk_x chunk, chunk_y chunk)) chs) =
             length (map (\<lambda>index. (int index mod CHUNK_SIZE, int index div CHUNK_SIZE)) [0..<nat TOTAL_CHUNKS])"
    unfolding chunk_layout_def by (rule arg_cong)
  then show ?thesis by (simp add: TOTAL_CHUNKS_def CHUNK_SIZE_def)
qed

lemma chunk_layout_nth:
  assumes "chunk_layout chs" and "i < 100"
  shows "chunk_x (chs ! i) = int i mod 10" and "chunk_y (chs ! i) = int i div 10"
proof -
  have len: "i < length chs" using assms by (simp add: chunk_layout_length)
  have "map (\<lambda>chunk. (chunk_x chunk, chunk_y chunk)) chs ! i =
        map (\<lambda>index. (int index mod CHUNK_SIZE, int index div CHUNK_SIZE)) [0..<nat TOTAL_CHUNKS] ! i"
    using assms(1) unfolding chunk_layout_def by (rule arg_cong)
  then have "(chunk_x (chs ! i), chunk_y (chs ! i)) = (int i mod 10, int i div 10)"
    using len assms(2) by (simp add: TOTAL_CHUNKS_def CHUNK_SIZE_def)
  then show "chunk_x (chs ! i) = int i mod 10" and "chunk_y (chs ! i) = int i div 10"
    by simp_all
qed

lemma chunk_layout_findIndex:
  assumes lay: "chunk_layout chs" and cx: "0 \<le> cx" "cx < 10" and cy: "0 \<le> cy" "cy < 10"
  shows "findIndex (\<lambda>chunk. chunk_x chunk = cx \<and> chunk_y chunk = cy) chs = Some (nat (cy * 10 + cx))"
proof (rule findIndex_first)
  have k: "nat (cy * 10 + cx) < 100" using cx cy by simp
  show "nat (cy * 10 + cx) < length chs"
    using k by (simp add: chunk_layout_length[OF lay])
  show "chunk_x (chs ! nat (cy * 10 + cx)) = cx \<and> chunk_y (chs ! nat (cy * 10 + cx)) = cy"
    using cx cy by (simp add: chunk_layout_nth[OF lay k])
  show "\<forall>j<nat (cy * 10 + cx). \<not> (chunk_x (chs ! j) = cx \<and> chunk_y (chs ! j) = cy)"
  proof (intro allI impI)
    fix j assume j: "j < nat (cy * 10 + cx)"
    then have j100: "j < 100" using k by simp
    show "\<not> (chunk_x (chs ! j) = cx \<and> chunk_y (chs ! j) = cy)"
    proof
      assume "chunk_x (chs ! j) = cx \<and> chunk_y (chs ! j) = cy"
      then have "int j mod 10 = cx" "int j div 10 = cy"
        by (simp_all add: chunk_layout_nth[OF lay j100])
      then have "int j = cy * 10 + cx"
        using div_mult_mod_eq[of "int j" 10] by simp
      with j show False by simp
    qed
  qed
qed

lemma recordActivity_chunks:
  assumes lay: "chunk_layout (chunks t)" and ib: "inBounds (x, y)"
  defines "k \<equiv> nat (y div 100 * 10 + x div 100)"
  shows "chunks (recordActivity now (x div CELLS_PER_CHUNK) (y div CELLS_PER_CHUNK) t) =
           updateHeatLevels ((chunks t)[k := (chunks t ! k)
              \<lparr>activityCount := activityCount (chunks t ! k) + 1, lastActivity := now\<rparr>])"
    and "k < length (chunks t)"
proof -
  from ib have b: "0 \<le> x div 100" "x div 100 < 10" "0 \<le> y div 100" "y div 100 < 10"
    by (auto simp: inBounds_def GRID_SIZE_def)
  have fi: "findIndex (\<lambda>chunk. chunk_x chunk = x div 100 \<and> chunk_y chunk = y div 100) (chunks t) = Some k"
    unfolding k_def using chunk_layout_findIndex[OF lay b] .
  show "chunks (recordActivity now (x div CELLS_PER_CHUNK) (y div CELLS_PER_CHUNK) t) =
           updateHeatLevels ((chunks t)[k := (chunks t ! k)
              \<lparr>activityCount := activityCount (chunks t ! k) + 1, lastActivity := now\<rparr>])"
    by (simp add: recordActivity_def CELLS_PER_CHUNK_def fi Let_def)
  show "k < length (chunks t)"
    unfolding k_def using b by (simp add: chunk_layout_length[OF lay])
qed


lemma fireTarget_activity:
  assumes lay: "chunk_layout (chunks t)" and ib: "inBounds (x, y)"
  shows "length (chunks (snd (fireTarget now x y t))) = length (chunks t)"
    and "nat (y div 100 * 10 + x div 100) < length (chunks t)"
    and "chunk_x (chunks t ! nat (y div 100 * 10 + x div 100)) = x div 100"
    and "chunk_y (chunks t ! nat (y div 100 * 10 + x div 100)) = y div 100"
    and "activityCount (chunks (snd (fireTarget now x y t)) ! nat (y div 100 * 10 + x div 100)) =
           activityCount (chunks t ! nat (y div 100 * 10 + x div 100)) + 1"
    and "lastActivity (chunks (snd (fireTarget now x y t)) ! nat (y div 100 * 10 + x div 100)) = now"
    and "\<forall>j<length (chunks t). j \<noteq> nat (y div 100 * 10 + x div 100) \<longrightarrow>
           activityCount (chunks (snd (fireTarget now x y t)) ! j) = activityCount (chunks t ! j) \<and>
           lastActivity (chunks (snd (fireTarget now x y t)) ! j) = lastActivity (chunks t ! j)"
proof -
  let ?k = "nat (y div 100 * 10 + x div 100)"
  note ra = recordActivity_chunks(1)[OF lay ib, of now] recordActivity_chunks(2)[OF lay ib]
  from ib have b: "0 \<le> x div 100" "x div 100 < 10" "0 \<le> y div 100" "y div 100 < 10"
    by (auto simp: inBounds_def GRID_SIZE_def)
  have k100: "?k < 100" using b by simp
  show "length (chunks (snd (fireTarget now x y t))) = length (chunks t)"
    by (simp add: fireTarget_chunks ra(1))
  show k: "?k < length (chunks t)" by (rule ra(2))
  show "chunk_x (chunks t ! ?k) = x div 100" and "chunk_y (chunks t ! ?k) = y div 100"
    using b by (simp_all add: chunk_layout_nth[OF lay k100])
  show "activityCount (chunks (snd (fireTarget now x y t)) ! ?k) = activityCount (chunks t ! ?k) + 1"
    using k by (simp add: fireTarget_chunks ra(1) updateHeatLevels_nth)
  show "lastActivity (chunks (snd (fireTarget now x y t)) ! ?k) = now"
    using k by (simp add: fireTarget_chunks ra(1) updateHeatLevels_nth)
  show "\<forall>j<length (chunks t). j \<noteq> ?k \<longrightarrow>
           activityCount (chunks (snd (fireTarget now x y t)) ! j) = activityCount (chunks t ! j) \<and>
           lastActivity (chunks (snd (fireTarget now x y t)) ! j) = lastActivity (chunks t ! j)"
    by (simp add: fireTarget_chunks ra(1) updateHeatLevels_nth)
qed

lemma chunk_layout_initial: "chunk_layout initialChunks"
  by (simp add: chunk_layout_def initialChunks_def o_def)

lemma chunk_layout_fireTarget:
  assumes lay: "chunk_layout (chunks t)" and ib: "inBounds (x, y)"
  shows "chunk_layout (chunks (snd (fireTarget now x y t)))"
proof -
  let ?k = "nat (y div 100 * 10 + x div 100)"
  let ?new = "chunks (snd (fireTarget now x y t))"
  have len: "length ?new = length (chunks t)" by (rule fireTarget_activity(1)[OF lay ib])
  have "map (\<lambda>chunk. (chunk_x chunk, chunk_y chunk)) ?new =
        map (\<lambda>chunk. (chunk_x chunk, chunk_y chunk)) (chunks t)"
  proof (rule nth_equalityI)
    show "length (map (\<lambda>chunk. (chunk_x chunk, chunk_y chunk)) ?new) =
          length (map (\<lambda>chunk. (chunk_x chunk, chunk_y chunk)) (chunks t))"
      by (simp add: len)
  next
    fix i assume "i < length (map (\<lambda>chunk. (chunk_x chunk, chunk_y chunk)) ?new)"
    then have i: "i < length (chunks t)" by (simp add: len)
    then show "map (\<lambda>chunk. (chunk_x chunk, chunk_y chunk)) ?new ! i =
               map (\<lambda>chunk. (chunk_x chunk, chunk_y chunk)) (chunks t) ! i"
      by (cases "i = ?k")
         (simp_all add: len fireTarget_chunks recordActivity_chunks(1)[OF lay ib] updateHeatLevels_nth)
  qed
  with lay show ?thesis by (simp add: chunk_layout_def)
qed

text \<open>
  C3. Every FIRE at an in-bounds \<open>(x, y)\<close> adds exactly 1 to the \<open>activityCount\<close> of the
  chunk of the opposing team that contains \<open>(x, y)\<close> and sets its \<open>lastActivity\<close> to
  now; no other chunk of that team changes its count or its time, and the acting team's
  state is untouched. Nothing is assumed about the target cell: the recording comes
  before the hit check, and a shot at a cell already hit returns false all the same.
\<close>

theorem fireShot_records_activity_on_target:
  assumes ib: "inBounds (x, y)" and lay: "chunk_layout (chunks (teamGrid (opposite tm) s))"
  shows "let s' = snd (fireShot now x y tm s);
             k = nat (y div 100 * 10 + x div 100);
             old = chunks (teamGrid (opposite tm) s);
             new = chunks (teamGrid (opposite tm) s')
         in length new = length old \<and> k < length old \<and>
            chunk_x (old ! k) = x div 100 \<and> chunk_y (old ! k) = y div 100 \<and>
            activityCount (new ! k) = activityCount (old ! k) + 1 \<and>
            lastActivity (new ! k) = now \<and>
            (\<forall>j<length old. j \<noteq> k \<longrightarrow>
               activityCount (new ! j) = activityCount (old ! j) \<and>
               lastActivity (new ! j) = lastActivity (old ! j)) \<and>
            teamGrid tm s' = teamGrid tm s \<and>
            (\<forall>c. cell_at (grid (teamGrid (opposite tm) s)) x y = Some c \<and> hit c \<longrightarrow>
               fst (fireShot now x y tm s) = Inr False)"
  unfolding Let_def fireShot_target fireShot_actor_unchanged
  using fireTarget_activity(1)[OF lay ib, of now] fireTarget_activity(2-4)[OF lay ib]
    fireTarget_activity(5-7)[OF lay ib, of now]
  by (simp add: fireShot_fireTarget fireTarget_hit)

lemma initialChunks_nth: "i < 100 \<Longrightarrow> activityCount (initialChunks ! i) = 0"
  by (simp add: initialChunks_def TOTAL_CHUNKS_def CHUNK_SIZE_def)

theorem fireShot_records_activity_on_target_witness:
  "inBounds (10, 10) \<and> chunk_layout (chunks (teamGrid (opposite red) initialState)) \<and>
   activityCount (chunks (teamGrid (opposite red) (snd (fireShot 5000 10 10 red initialState))) ! 0) = 1 \<and>
   lastActivity (chunks (teamGrid (opposite red) (snd (fireShot 5000 10 10 red initialState))) ! 0) = 5000 \<and>
   teamGrid red (snd (fireShot 5000 10 10 red initialState)) = teamGrid red initialState"
proof -
  have ib: "inBounds (10, 10)" by (simp add: inBounds_def GRID_SIZE_def)
  have lay: "chunk_layout (chunks (teamGrid (opposite red) initialState))"
    by (simp add: initialState_def initialTeamGrid_def chunk_layout_initial)
  have z: "activityCount (chunks (teamGrid (opposite red) initialState) ! 0) = 0"
    by (simp add: initialState_def initialTeamGrid_def initialChunks_nth)
  show ?thesis
    using fireShot_records_activity_on_target[OF ib lay, of 5000] ib lay z
    by (simp add: Let_def)
qed

subsection \<open>A shot at a cell already hit\<close>

lemma grid_markHit:
  "grid (markHit x y t) = set_cell (grid t) x y ((grid t ! nat y ! nat x)\<lparr>hit := True\<rparr>)"
  by (simp add: markHit_def)

lemma fireTarget_miss:
  "cell_at (grid t) x y = Some c \<Longrightarrow> \<not> hit c \<Longrightarrow> ship c = None \<Longrightarrow>
     fireTarget now x y t =
       (Inr True, markHit x y (recordActivity now (x div CELLS_PER_CHUNK) (y div CELLS_PER_CHUNK) t))"
  by (simp add: fireTarget_def Let_def)

lemma fireShot_hit:
  "cell_at (grid (teamGrid (opposite tm) s)) x y = Some c \<Longrightarrow> hit c \<Longrightarrow>
     fireShot now x y tm s =
       (Inr False, setTeamGrid (opposite tm)
          (\<lambda>_. recordActivity now (x div CELLS_PER_CHUNK) (y div CELLS_PER_CHUNK)
                  (teamGrid (opposite tm) s)) s)"
  by (simp add: fireShot_fireTarget fireTarget_hit)

lemma first_shot:
  "cell_at (grid (snd (fireTarget 1000 0 0 initialTeamGrid))) 0 0 = Some (emptyCell\<lparr>hit := True\<rparr>)"
  "chunk_layout (chunks (snd (fireTarget 1000 0 0 initialTeamGrid)))"
proof -
  have ib: "inBounds (0, 0)" by (simp add: inBounds_def GRID_SIZE_def)
  have c: "cell_at (grid initialTeamGrid) 0 0 = Some emptyCell"
    by (simp add: initialTeamGrid_def cell_at_generateEmptyGrid ib)
  have e: "generateEmptyGrid ! 0 ! 0 = emptyCell"
    by (simp add: generateEmptyGrid_def GRID_SIZE_def)
  have ft: "fireTarget 1000 0 0 initialTeamGrid =
      (Inr True, markHit 0 0 (recordActivity 1000 (0 div CELLS_PER_CHUNK) (0 div CELLS_PER_CHUNK) initialTeamGrid))"
    by (rule fireTarget_miss[OF c]) (simp_all add: emptyCell_def)
  have "grid (snd (fireTarget 1000 0 0 initialTeamGrid)) =
        set_cell generateEmptyGrid 0 0 (emptyCell\<lparr>hit := True\<rparr>)"
    unfolding ft by (simp add: grid_markHit initialTeamGrid_def e)
  then show "cell_at (grid (snd (fireTarget 1000 0 0 initialTeamGrid))) 0 0 = Some (emptyCell\<lparr>hit := True\<rparr>)"
    by (simp add: cell_at_set_cell[OF wf_generateEmptyGrid ib])
  show "chunk_layout (chunks (snd (fireTarget 1000 0 0 initialTeamGrid)))"
    by (rule chunk_layout_fireTarget[OF _ ib]) (simp add: initialTeamGrid_def chunk_layout_initial)
qed

text \<open>
  C2, as the claim states it, fails: a second shot at the cell \<open>(0, 0)\<close> of the red grid,
  which the first shot hit, returns false, and the state after it is not the state before.
\<close>

theorem fireShot_on_hit_cell_changes_state:
  "map_option hit (cell_at (grid (teamGrid red (snd (fireShot 1000 0 0 blue initialState)))) 0 0) = Some True \<and>
   fst (fireShot 2000 0 0 blue (snd (fireShot 1000 0 0 blue initialState))) = Inr False \<and>
   snd (fireShot 2000 0 0 blue (snd (fireShot 1000 0 0 blue initialState))) \<noteq>
     snd (fireShot 1000 0 0 blue initialState)"
proof -
  let ?t1 = "snd (fireTarget 1000 0 0 initialTeamGrid)"
  let ?s1 = "snd (fireShot 1000 0 0 blue initialState)"
  have ib: "inBounds (0, 0)" by (simp add: inBounds_def GRID_SIZE_def)
  have red1: "teamGrid red ?s1 = ?t1"
    using fireShot_target[of blue 1000 0 0 initialState] by (simp add: initialState_def)
  have c: "cell_at (grid (teamGrid (opposite blue) ?s1)) 0 0 = Some (emptyCell\<lparr>hit := True\<rparr>)"
    using red1 first_shot(1) by simp
  have h: "hit (emptyCell\<lparr>hit := True\<rparr>)" by simp
  have r: "fst (fireShot 2000 0 0 blue ?s1) = Inr False"
    unfolding fireShot_hit[OF c h] by simp
  have "activityCount (chunks (teamGrid red (snd (fireShot 2000 0 0 blue ?s1))) ! 0) =
        activityCount (chunks (teamGrid red ?s1) ! 0) + 1"
    using fireTarget_activity(5)[OF first_shot(2) ib, of 2000] fireShot_target[of blue 2000 0 0 ?s1] red1
    by simp
  then have "snd (fireShot 2000 0 0 blue ?s1) \<noteq> ?s1"
    by auto
  with r c show ?thesis by simp
qed

text \<open>
  C2, amended. A shot at a cell of the opposing grid that is already hit returns false
  and changes no cell, ship or stat of either team and no chunk of the acting team. The
  opposing team's chunk array is the one \<open>updateChunkActivity\<close> leaves: the activity is
  recorded in the chunk that contains \<open>(x, y)\<close> and the heat levels are recomputed.
\<close>

theorem fireShot_on_hit_cell_only_records_activity:
  assumes c: "cell_at (grid (teamGrid (opposite tm) s)) x y = Some c" and h: "hit c"
  shows "fst (fireShot now x y tm s) = Inr False \<and>
         snd (fireShot now x y tm s) = updateChunkActivity now x y tm s \<and>
         teamGrid tm (snd (fireShot now x y tm s)) = teamGrid tm s \<and>
         grid (teamGrid (opposite tm) (snd (fireShot now x y tm s))) = grid (teamGrid (opposite tm) s) \<and>
         ships (teamGrid (opposite tm) (snd (fireShot now x y tm s))) = ships (teamGrid (opposite tm) s) \<and>
         stats (teamGrid (opposite tm) (snd (fireShot now x y tm s))) = stats (teamGrid (opposite tm) s) \<and>
         chunks (teamGrid (opposite tm) (snd (fireShot now x y tm s))) =
           chunks (recordActivity now (x div CELLS_PER_CHUNK) (y div CELLS_PER_CHUNK)
                     (teamGrid (opposite tm) s))"
proof -
  note fs = fireShot_hit[OF c h, of now]
  have a1: "fst (fireShot now x y tm s) = Inr False"
    unfolding fs by simp
  have a2: "snd (fireShot now x y tm s) = updateChunkActivity now x y tm s"
    unfolding fs by (cases tm) (simp_all add: updateChunkActivity_def getChunkFromCoords_def)
  have a3: "teamGrid tm (snd (fireShot now x y tm s)) = teamGrid tm s"
    by (rule fireShot_actor_unchanged)
  have t: "teamGrid (opposite tm) (snd (fireShot now x y tm s)) =
      recordActivity now (x div CELLS_PER_CHUNK) (y div CELLS_PER_CHUNK) (teamGrid (opposite tm) s)"
    unfolding fs by (simp add: teamGrid_setTeamGrid_same)
  have a4: "grid (teamGrid (opposite tm) (snd (fireShot now x y tm s))) = grid (teamGrid (opposite tm) s)"
    and a5: "ships (teamGrid (opposite tm) (snd (fireShot now x y tm s))) = ships (teamGrid (opposite tm) s)"
    and a6: "stats (teamGrid (opposite tm) (snd (fireShot now x y tm s))) = stats (teamGrid (opposite tm) s)"
    and a7: "chunks (teamGrid (opposite tm) (snd (fireShot now x y tm s))) =
           chunks (recordActivity now (x div CELLS_PER_CHUNK) (y div CELLS_PER_CHUNK)
                     (teamGrid (opposite tm) s))"
    unfolding t by simp_all
  from a1 a2 a3 a4 a5 a6 a7 show ?thesis by blast
qed

theorem fireShot_on_hit_cell_only_records_activity_witness:
  "cell_at (grid (teamGrid (opposite blue) (snd (fireShot 1000 0 0 blue initialState)))) 0 0 =
     Some (emptyCell\<lparr>hit := True\<rparr>) \<and> hit (emptyCell\<lparr>hit := True\<rparr>) \<and>
   fst (fireShot 2000 0 0 blue (snd (fireShot 1000 0 0 blue initialState))) = Inr False \<and>
   grid (teamGrid (opposite blue) (snd (fireShot 2000 0 0 blue (snd (fireShot 1000 0 0 blue initialState))))) =
     grid (teamGrid (opposite blue) (snd (fireShot 1000 0 0 blue initialState)))"
proof -
  let ?s1 = "snd (fireShot 1000 0 0 blue initialState)"
  have red1: "teamGrid red ?s1 = snd (fireTarget 1000 0 0 initialTeamGrid)"
    using fireShot_target[of blue 1000 0 0 initialState] by (simp add: initialState_def)
  have c: "cell_at (grid (teamGrid (opposite blue) ?s1)) 0 0 = Some (emptyCell\<lparr>hit := True\<rparr>)"
    using red1 first_shot(1) by simp
  have h: "hit (emptyCell\<lparr>hit := True\<rparr>)" by simp
  show ?thesis
    using fireShot_on_hit_cell_only_records_activity[OF c h, of 2000] c h by blast
qed

subsection \<open>Coordinates outside the grid\<close>

text \<open>
  C8. \<open>placeShip\<close> answers a placement that leaves the grid with false, but \<open>fireShot\<close>
  reads \<open>targetGrid[y][x]\<close> without a bounds check: at \<open>y = 1000\<close> the row is
  \<open>undefined\<close> and the read throws a TypeError.
\<close>

theorem fireShot_out_of_range_throws:
  "fst (fireShot 1000 0 1000 blue initialState) = Inl TypeError \<and>
   fst (fireShot 1000 (-1) 0 blue initialState) = Inl TypeError \<and>
   fst (placeShip ''anon-k3x'' 1000 ''s1'' ''s2'' 0 1000 2 True blue initialState) = Inr False"
proof -
  have g: "grid (redTeamGrid initialState) = generateEmptyGrid"
          "grid (teamGrid blue initialState) = generateEmptyGrid"
    by (simp_all add: initialState_def initialTeamGrid_def)
  have n: "cell_at generateEmptyGrid 0 1000 = None" "cell_at generateEmptyGrid (-1) 0 = None"
    by (simp_all add: cell_at_generateEmptyGrid inBounds_def GRID_SIZE_def)
  have f: "fst (fireShot 1000 0 1000 blue initialState) = Inl TypeError"
          "fst (fireShot 1000 (-1) 0 blue initialState) = Inl TypeError"
    by (simp_all add: fireShot_fireTarget fireTarget_def g n Let_def)
  have wf: "wf_grid (grid (teamGrid blue initialState))"
    unfolding g by (rule wf_generateEmptyGrid)
  have "fst (placeShip ''anon-k3x'' 1000 ''s1'' ''s2'' 0 1000 2 True blue initialState) = Inr False"
    by (simp add: placeShip_unfold[OF wf] placeShipCells_def upto.simps spec_eligible_def GRID_SIZE_def)
  with f show ?thesis by simp
qed

subsection \<open>A shot that destroys a ship\<close>

lemma cell_at_markHit:
  assumes wf: "wf_grid (grid t)" and c: "cell_at (grid t) x y = Some c"
  shows "cell_at (grid (markHit x y t)) cx cy =
           map_option (\<lambda>cell. if cx = x \<and> cy = y then cell\<lparr>hit := True\<rparr> else cell) (cell_at (grid t) cx cy)"
    and "wf_grid (grid (markHit x y t))"
proof -
  from wf c have ib: "inBounds (x, y)" and e: "grid t ! nat y ! nat x = c"
    by (simp_all add: cell_at_wf split: if_splits)
  show "cell_at (grid (markHit x y t)) cx cy =
           map_option (\<lambda>cell. if cx = x \<and> cy = y then cell\<lparr>hit := True\<rparr> else cell) (cell_at (grid t) cx cy)"
    using c by (cases "cell_at (grid t) cx cy") (auto simp: grid_markHit cell_at_set_cell[OF wf ib] e)
  show "wf_grid (grid (markHit x y t))"
    by (simp add: grid_markHit wf_set_cell[OF wf])
qed


lemma fireTarget_ship:
  assumes "cell_at (grid t) x y = Some c" "\<not> hit c" "occupied c" "ship c = Some r"
  shows "fireTarget now x y t =
     (Inr True,
      (markHit x y (recordActivity now (x div CELLS_PER_CHUNK) (y div CELLS_PER_CHUNK) t))
         \<lparr>ships := map (hitShip (ref_id r)) (ships t)\<rparr>)"
  using assms by (simp add: fireTarget_def Let_def)

lemma scenarioPlaced_blue: "blueTeamGrid scenarioPlaced = registerShip scenarioShip initialTeamGrid"
proof -
  have g: "grid (teamGrid blue initialState) = generateEmptyGrid"
    by (simp add: initialState_def initialTeamGrid_def)
  have wf: "wf_grid (grid (teamGrid blue initialState))"
    unfolding g by (rule wf_generateEmptyGrid)
  have cs: "placeShipCells 10 10 2 True = [(10, 10), (11, 10)]"
    by (simp add: placeShipCells_def upto.simps)
  have ok: "list_all (spec_eligible (grid (teamGrid blue initialState)) 1000) (placeShipCells 10 10 2 True)"
    unfolding g cs
    by (simp add: spec_eligible_def cell_at_generateEmptyGrid inBounds_def GRID_SIZE_def emptyCell_def)
  have "placeShip ''anon-k3x'' 1000 ''s1'' ''s2'' 10 10 2 True blue initialState =
        (Inr True, setTeamGrid blue (registerShip scenarioShip) initialState)"
    using ok by (simp add: placeShip_unfold[OF wf] scenarioShip_def cs)
  then show ?thesis
    by (simp add: scenarioPlaced_def initialState_def)
qed

lemma scenarioPlaced_grid:
  "wf_grid (grid (blueTeamGrid scenarioPlaced))"
  "cell_at (grid (blueTeamGrid scenarioPlaced)) cx cy =
     (if (cx, cy) \<in> {(10, 10), (11, 10)} then Some (shipCell ''s1'' ''anon-k3x'')
      else if inBounds (cx, cy) then Some emptyCell else None)"
proof -
  have g: "grid (blueTeamGrid scenarioPlaced) =
           placeCells \<lparr>ref_id = ''s1'', ref_owner = ''anon-k3x''\<rparr> [(10, 10), (11, 10)] generateEmptyGrid"
    unfolding scenarioPlaced_blue by (simp add: registerShip_def scenarioShip_def initialTeamGrid_def)
  have ib: "list_all inBounds [(10, 10), (11, 10)]"
    by (simp add: inBounds_def GRID_SIZE_def)
  show "wf_grid (grid (blueTeamGrid scenarioPlaced))"
    unfolding g by (rule placeCells_wf[OF wf_generateEmptyGrid])
  show "cell_at (grid (blueTeamGrid scenarioPlaced)) cx cy =
     (if (cx, cy) \<in> {(10, 10), (11, 10)} then Some (shipCell ''s1'' ''anon-k3x'')
      else if inBounds (cx, cy) then Some emptyCell else None)"
    unfolding g cell_at_placeCells[OF wf_generateEmptyGrid ib]
    by (simp add: shipCell_def cell_at_generateEmptyGrid)
qed

lemma scenarioHitOnce_blue:
  "wf_grid (grid (blueTeamGrid scenarioHitOnce))"
  "cell_at (grid (blueTeamGrid scenarioHitOnce)) cx cy =
     (if (cx, cy) = (10, 10) then Some ((shipCell ''s1'' ''anon-k3x'')\<lparr>hit := True\<rparr>)
      else if (cx, cy) = (11, 10) then Some (shipCell ''s1'' ''anon-k3x'')
      else if inBounds (cx, cy) then Some emptyCell else None)"
  "ships (blueTeamGrid scenarioHitOnce) = [scenarioShip\<lparr>hits := 1\<rparr>]"
proof -
  let ?t = "blueTeamGrid scenarioPlaced"
  let ?t1 = "recordActivity 2000 (10 div CELLS_PER_CHUNK) (10 div CELLS_PER_CHUNK) ?t"
  have c: "cell_at (grid ?t) 10 10 = Some (shipCell ''s1'' ''anon-k3x'')"
    by (simp add: scenarioPlaced_grid(2))
  have sh: "ships ?t = [scenarioShip]"
    unfolding scenarioPlaced_blue by (simp add: registerShip_def initialTeamGrid_def)
  have ft: "fireTarget 2000 10 10 ?t = (Inr True, (markHit 10 10 ?t1)\<lparr>ships := map (hitShip ''s1'') (ships ?t)\<rparr>)"
    using fireTarget_ship[OF c, where r="\<lparr>ref_id = ''s1'', ref_owner = ''anon-k3x''\<rparr>" and now=2000]
    by (simp add: shipCell_def sh)
  have b: "blueTeamGrid scenarioHitOnce = (markHit 10 10 ?t1)\<lparr>ships := map (hitShip ''s1'') (ships ?t)\<rparr>"
    using fireShot_target[of red 2000 10 10 scenarioPlaced] by (simp add: scenarioHitOnce_def ft)
  have wf1: "wf_grid (grid ?t1)" and c1: "cell_at (grid ?t1) 10 10 = Some (shipCell ''s1'' ''anon-k3x'')"
    using scenarioPlaced_grid(1) c by simp_all
  show "wf_grid (grid (blueTeamGrid scenarioHitOnce))"
    unfolding b using cell_at_markHit(2)[OF wf1 c1] by simp
  show "cell_at (grid (blueTeamGrid scenarioHitOnce)) cx cy =
     (if (cx, cy) = (10, 10) then Some ((shipCell ''s1'' ''anon-k3x'')\<lparr>hit := True\<rparr>)
      else if (cx, cy) = (11, 10) then Some (shipCell ''s1'' ''anon-k3x'')
      else if inBounds (cx, cy) then Some emptyCell else None)"
    unfolding b using cell_at_markHit(1)[OF wf1 c1, of cx cy]
    by (simp add: scenarioPlaced_grid(2))
  show "ships (blueTeamGrid scenarioHitOnce) = [scenarioShip\<lparr>hits := 1\<rparr>]"
    unfolding b by (simp add: sh hitShip_def scenarioShip_def)
qed


lemma scenarioDestroyed_blue:
  "wf_grid (grid (blueTeamGrid scenarioDestroyed))"
  "cell_at (grid (blueTeamGrid scenarioDestroyed)) cx cy =
     (if (cx, cy) \<in> {(10, 10), (11, 10)} then Some ((shipCell ''s1'' ''anon-k3x'')\<lparr>hit := True\<rparr>)
      else if inBounds (cx, cy) then Some emptyCell else None)"
  "ships (blueTeamGrid scenarioDestroyed) = [scenarioShip\<lparr>hits := 2, destroyed := True\<rparr>]"
  "fst (fireShot 3000 11 10 red scenarioHitOnce) = Inr True"
proof -
  let ?t = "blueTeamGrid scenarioHitOnce"
  let ?t1 = "recordActivity 3000 (11 div CELLS_PER_CHUNK) (10 div CELLS_PER_CHUNK) ?t"
  have c: "cell_at (grid ?t) 11 10 = Some (shipCell ''s1'' ''anon-k3x'')"
    by (simp add: scenarioHitOnce_blue(2))
  have sh: "ships ?t = [scenarioShip\<lparr>hits := 1\<rparr>]"
    by (rule scenarioHitOnce_blue(3))
  have ft: "fireTarget 3000 11 10 ?t = (Inr True, (markHit 11 10 ?t1)\<lparr>ships := map (hitShip ''s1'') (ships ?t)\<rparr>)"
    using fireTarget_ship[OF c, where r="\<lparr>ref_id = ''s1'', ref_owner = ''anon-k3x''\<rparr>" and now=3000]
    by (simp add: shipCell_def sh)
  have b: "blueTeamGrid scenarioDestroyed = (markHit 11 10 ?t1)\<lparr>ships := map (hitShip ''s1'') (ships ?t)\<rparr>"
    using fireShot_target[of red 3000 11 10 scenarioHitOnce] by (simp add: scenarioDestroyed_def ft)
  have wf1: "wf_grid (grid ?t1)" and c1: "cell_at (grid ?t1) 11 10 = Some (shipCell ''s1'' ''anon-k3x'')"
    using scenarioHitOnce_blue(1) c by simp_all
  show "wf_grid (grid (blueTeamGrid scenarioDestroyed))"
    unfolding b using cell_at_markHit(2)[OF wf1 c1] by simp
  show "cell_at (grid (blueTeamGrid scenarioDestroyed)) cx cy =
     (if (cx, cy) \<in> {(10, 10), (11, 10)} then Some ((shipCell ''s1'' ''anon-k3x'')\<lparr>hit := True\<rparr>)
      else if inBounds (cx, cy) then Some emptyCell else None)"
    unfolding b using cell_at_markHit(1)[OF wf1 c1, of cx cy]
    by (simp add: scenarioHitOnce_blue(2))
  show "ships (blueTeamGrid scenarioDestroyed) = [scenarioShip\<lparr>hits := 2, destroyed := True\<rparr>]"
    unfolding b by (simp add: sh hitShip_def scenarioShip_def)
  show "fst (fireShot 3000 11 10 red scenarioHitOnce) = Inr True"
    by (simp add: fireShot_fireTarget ft)
qed

lemma scenarioDestroyed_placement:
  "fst (placeShip ''anon-k3x'' 4000 ''s3'' ''s4'' 12 11 2 True blue scenarioDestroyed) = Inr True"
proof -
  have wf: "wf_grid (grid (teamGrid blue scenarioDestroyed))"
    using scenarioDestroyed_blue(1) by simp
  have cs: "placeShipCells 12 11 2 True = [(12, 11), (13, 11)]"
    by (simp add: placeShipCells_def upto.simps)
  have ok: "list_all (spec_eligible (grid (teamGrid blue scenarioDestroyed)) 4000) (placeShipCells 12 11 2 True)"
    unfolding cs
    by (simp add: spec_eligible_def scenarioDestroyed_blue(2) inBounds_def GRID_SIZE_def emptyCell_def)
  show ?thesis
    using ok by (simp add: placeShip_unfold[OF wf])
qed

text \<open>
  Claim C4. A shot that brings a ship's hits to the number of its cells is to set
  \<open>cooldownUntil\<close> to \<open>now + 10000\<close> on the ship's cells and on their neighbours. In the
  program it sets none. Blue places a two-cell ship at \<open>(10, 10)\<close> and \<open>(11, 10)\<close>; red
  hits \<open>(10, 10)\<close> at time 2000 and \<open>(11, 10)\<close> at time 3000. The second shot returns
  \<open>true\<close> and the ship is recorded with 2 hits and destroyed, but no cell of blue's grid
  has a \<open>cooldownUntil\<close>: not the ship's cell \<open>(11, 10)\<close>, not its neighbour
  \<open>(12, 11)\<close>, which is as \<open>generateEmptyGrid\<close> made it. A placement over \<open>(12, 11)\<close>
  at time 4000, inside the ten seconds, succeeds.
\<close>

theorem fireShot_destroying_shot_sets_no_cooldown:
  "fst (fireShot 3000 11 10 red scenarioHitOnce) = Inr True \<and>
   ships (teamGrid blue scenarioDestroyed) = [scenarioShip\<lparr>hits := 2, destroyed := True\<rparr>] \<and>
   hits (scenarioShip\<lparr>hits := 2, destroyed := True\<rparr>) = int (length (cells scenarioShip)) \<and>
   inArea (cells scenarioShip) (11, 10) \<and> inArea (cells scenarioShip) (12, 11) \<and>
   cooldownAt scenarioDestroyed blue cx cy = None \<and>
   cell_at (grid (teamGrid blue scenarioDestroyed)) 12 11 = Some emptyCell \<and>
   fst (placeShip ''anon-k3x'' 4000 ''s3'' ''s4'' 12 11 2 True blue scenarioDestroyed) = Inr True"
proof -
  have a: "inArea (cells scenarioShip) (11, 10)" "inArea (cells scenarioShip) (12, 11)"
    by (simp_all add: inArea_def scenarioShip_def inBounds_def GRID_SIZE_def)
  have n: "cooldownAt scenarioDestroyed blue u v = None" for u v
    by (simp add: cooldownAt_def scenarioDestroyed_blue(2) shipCell_def emptyCell_def)
  have e: "cell_at (grid (teamGrid blue scenarioDestroyed)) 12 11 = Some emptyCell"
    by (simp add: scenarioDestroyed_blue(2) inBounds_def GRID_SIZE_def)
  have l: "hits (scenarioShip\<lparr>hits := 2, destroyed := True\<rparr>) = int (length (cells scenarioShip))"
    by (simp add: scenarioShip_def)
  have s: "ships (teamGrid blue scenarioDestroyed) = [scenarioShip\<lparr>hits := 2, destroyed := True\<rparr>]"
    using scenarioDestroyed_blue(3) by simp
  show ?thesis
    using scenarioDestroyed_blue(4) s l a n e scenarioDestroyed_placement by simp
qed

subsection \<open>Heat levels against the specification's algorithm\<close>

lemma sort_key_neg_ranked:
  fixes f :: "'a \<Rightarrow> real"
  shows "map f (sort_key (\<lambda>c. - f c) xs) = rev (sort (map f xs))"
proof -
  let ?ys = "sort_key (\<lambda>c. - f c) xs"
  have "sorted (map (\<lambda>c. - f c) ?ys)" by (rule sorted_sort_key)
  then have desc: "sorted_wrt (\<lambda>a b. f b \<le> f a) ?ys"
    by (simp add: sorted_wrt_map)
  have "sorted (rev (map f ?ys))"
    using desc by (simp add: sorted_wrt_rev sorted_wrt_map)
  moreover have "mset (rev (map f ?ys)) = mset (map f xs)"
    by simp
  ultimately have "sort (map f xs) = rev (map f ?ys)"
    by (rule properties_for_sort[rotated])
  then show ?thesis by simp
qed

lemma ranked_head_Max:
  fixes vs :: "real list"
  assumes "vs \<noteq> []"
  shows "rev (sort vs) ! 0 = Max (set vs)"
proof -
  have ne: "sort vs \<noteq> []" using assms by (metis length_sort length_0_conv)
  have "rev (sort vs) ! 0 = last (sort vs)"
    using ne by (simp add: hd_conv_nth[symmetric] hd_rev)
  also have "\<dots> = Max (set vs)"
  proof (rule Max_eqI[symmetric])
    show "finite (set vs)" by simp
    show "last (sort vs) \<in> set vs" using last_in_set[OF ne] by simp
    fix y assume "y \<in> set vs"
    then have "y \<in> set (sort vs)" by simp
    then obtain i where i: "i < length (sort vs)" "sort vs ! i = y"
      by (metis in_set_conv_nth)
    have "sort vs ! i \<le> sort vs ! (length (sort vs) - 1)"
      by (rule sorted_nth_mono) (use i in auto)
    then show "y \<le> last (sort vs)"
      using i ne by (simp add: last_conv_nth)
  qed
  finally show ?thesis .
qed


lemma min_pred_less: "0 < n \<Longrightarrow> min a (n - 1) < (n::nat)"
  by arith

lemma heat_indices_aux:
  fixes h w :: int and n :: nat
  assumes "0 \<le> h" "0 \<le> w" "0 < n"
  shows "nat (min (max 1 h - 1) (int n - 1)) = min (max 1 (nat h) - 1) (n - 1)"
    and "nat (min (max 1 h + max 2 w - 1) (int n - 1)) = min (max 1 (nat h) + max 2 (nat w) - 1) (n - 1)"
  using assms by arith+

lemma heat_indices:
  assumes "0 < n"
  shows "nat (min (max 1 \<lfloor>real n * 0.2\<rfloor> - 1) (int n - 1)) =
           min (max 1 (nat \<lfloor>0.20 * real n\<rfloor>) - 1) (n - 1)"
    and "nat (min (max 1 \<lfloor>real n * 0.2\<rfloor> + max 2 \<lfloor>real n * 0.3\<rfloor> - 1) (int n - 1)) =
           min (max 1 (nat \<lfloor>0.20 * real n\<rfloor>) + max 2 (nat \<lfloor>0.30 * real n\<rfloor>) - 1) (n - 1)"
proof -
  have h: "0 \<le> \<lfloor>real n * 0.2\<rfloor>" and w: "0 \<le> \<lfloor>real n * 0.3\<rfloor>" by simp_all
  have e: "\<lfloor>0.20 * real n\<rfloor> = \<lfloor>real n * 0.2\<rfloor>" "\<lfloor>0.30 * real n\<rfloor> = \<lfloor>real n * 0.3\<rfloor>"
    by (simp_all add: mult.commute)
  show "nat (min (max 1 \<lfloor>real n * 0.2\<rfloor> - 1) (int n - 1)) =
           min (max 1 (nat \<lfloor>0.20 * real n\<rfloor>) - 1) (n - 1)"
    unfolding e by (rule heat_indices_aux(1)[OF h w assms])
  show "nat (min (max 1 \<lfloor>real n * 0.2\<rfloor> + max 2 \<lfloor>real n * 0.3\<rfloor> - 1) (int n - 1)) =
           min (max 1 (nat \<lfloor>0.20 * real n\<rfloor>) + max 2 (nat \<lfloor>0.30 * real n\<rfloor>) - 1) (n - 1)"
    unfolding e by (rule heat_indices_aux(2)[OF h w assms])
qed

lemma ranked_positive:
  fixes vs :: "real list"
  assumes "\<forall>v \<in> set vs. 0 < v" and "i < length vs"
  shows "0 < rev (sort vs) ! i"
proof -
  have "rev (sort vs) ! i \<in> set (rev (sort vs))"
    using assms(2) by (intro nth_mem) simp
  then show ?thesis using assms(1) by simp
qed

lemma assignHeat_spec_form:
  assumes "0 < W"
  shows "assignHeat H W (M * 0.03) chunk =
           chunk\<lparr>heatLevel := (if activityCount chunk \<ge> H \<and> activityCount chunk > 0 then 3
                                 else if activityCount chunk \<ge> W then 2
                                 else if activityCount chunk \<ge> 0.03 * M then 1
                                 else 0)\<rparr>"
proof -
  have "(activityCount chunk \<ge> W \<and> activityCount chunk > 0) = (activityCount chunk \<ge> W)"
    using assms by auto
  then show ?thesis
    by (simp add: assignHeat_def mult.commute)
qed

lemma updateHeatLevels_spec:
  "updateHeatLevels chs = recomputeHeatLevels_spec chs"
proof (cases "filter (\<lambda>chunk. activityCount chunk > 0) chs = []")
  case True
  then show ?thesis
    by (simp add: updateHeatLevels_def recomputeHeatLevels_spec_def)
next
  case False
  let ?act = "filter (\<lambda>chunk. activityCount chunk > 0) chs"
  let ?vs = "filter (\<lambda>v. v > 0) (map activityCount chs)"
  let ?sorted = "sort_key (\<lambda>chunk. - activityCount chunk) ?act"
  let ?n = "length ?vs"
  have vs: "map activityCount ?act = ?vs"
    by (simp add: filter_map o_def)
  have lenA: "length ?act = ?n"
    using arg_cong[OF vs, of length] by (simp only: length_map)
  have n: "0 < ?n" using False lenA by (metis length_greater_0_conv)
  have n0: "?n \<noteq> 0" using n by (metis less_numeral_extra(3))
  have lenS: "length ?sorted = ?n" by (simp only: length_sort lenA)
  have ranked: "map activityCount ?sorted = rev (sort ?vs)"
    unfolding vs[symmetric] by (rule sort_key_neg_ranked)
  have nth: "activityCount (?sorted ! i) = rev (sort ?vs) ! i" if "i < ?n" for i
  proof -
    have "map activityCount ?sorted ! i = activityCount (?sorted ! i)"
      by (rule nth_map) (simp only: lenS that)
    then show ?thesis by (simp only: ranked)
  qed
  have vne: "?vs \<noteq> []" using n by (metis length_greater_0_conv)
  let ?hi = "min (max 1 (nat \<lfloor>0.20 * real ?n\<rfloor>) - 1) (?n - 1)"
  let ?wi = "min (max 1 (nat \<lfloor>0.20 * real ?n\<rfloor>) + max 2 (nat \<lfloor>0.30 * real ?n\<rfloor>) - 1) (?n - 1)"
  let ?H = "rev (sort ?vs) ! ?hi" and ?W = "rev (sort ?vs) ! ?wi" and ?M = "Max (set ?vs)"
  have hi: "?hi < ?n" and wi: "?wi < ?n" by (rule min_pred_less[OF n])+
  have wpos: "0 < ?W"
    by (rule ranked_positive[OF _ wi]) simp
  have H: "activityCount (?sorted ! nat (min (max 1 \<lfloor>real ?n * 0.2\<rfloor> - 1) (int ?n - 1))) = ?H"
    by (simp only: heat_indices(1)[OF n] nth[OF hi])
  have W: "activityCount (?sorted ! nat (min (max 1 \<lfloor>real ?n * 0.2\<rfloor> + max 2 \<lfloor>real ?n * 0.3\<rfloor> - 1) (int ?n - 1))) = ?W"
    by (simp only: heat_indices(2)[OF n] nth[OF wi])
  have M: "activityCount (?sorted ! 0) = ?M"
    by (simp only: nth[OF n] ranked_head_Max[OF vne])
  have "updateHeatLevels chs = map (assignHeat ?H ?W (?M * 0.03)) chs"
    unfolding updateHeatLevels_def Let_def lenS lenA H W M
    by (simp only: n0 if_False)
  also have "\<dots> = map (\<lambda>chunk. chunk\<lparr>heatLevel :=
        spec_heatLevel (map activityCount chs) (activityCount chunk)\<rparr>) chs"
    unfolding assignHeat_spec_form[OF wpos] spec_heatLevel_def Let_def ..
  finally show ?thesis
    unfolding recomputeHeatLevels_spec_def using False by (simp only: if_False)
qed


lemma recompute_spec_activity:
  "map activityCount (recomputeHeatLevels_spec chs) = map activityCount chs"
  by (simp add: recomputeHeatLevels_spec_def o_def)

lemma no_active_conv:
  "(filter (\<lambda>chunk. activityCount chunk > 0) chs = []) =
   (filter (\<lambda>v. v > 0) (map activityCount chs) = [])"
  by (simp add: filter_empty_conv)

lemma recompute_spec_idem:
  "recomputeHeatLevels_spec (recomputeHeatLevels_spec chs) = recomputeHeatLevels_spec chs"
proof (cases "filter (\<lambda>chunk. activityCount chunk > 0) chs = []")
  case True
  then show ?thesis by (simp add: recomputeHeatLevels_spec_def)
next
  case False
  let ?r = "recomputeHeatLevels_spec chs"
  let ?f = "\<lambda>chunk. chunk\<lparr>heatLevel := spec_heatLevel (map activityCount chs) (activityCount chunk)\<rparr>"
  have r: "?r = map ?f chs"
    using False by (simp add: recomputeHeatLevels_spec_def)
  have act: "filter (\<lambda>chunk. activityCount chunk > 0) ?r \<noteq> []"
    using False unfolding no_active_conv recompute_spec_activity .
  have "recomputeHeatLevels_spec ?r =
        map (\<lambda>chunk. chunk\<lparr>heatLevel := spec_heatLevel (map activityCount ?r) (activityCount chunk)\<rparr>) ?r"
    using act by (simp only: recomputeHeatLevels_spec_def if_False)
  also have "\<dots> = map ?f ?r"
    unfolding recompute_spec_activity ..
  also have "\<dots> = map ?f chs"
    unfolding r by simp
  finally show ?thesis by (simp only: r)
qed

text \<open>
  C5. \<open>updateHeatLevels\<close> is the specification's algorithm: with no active chunk the
  array comes back unchanged, and otherwise every chunk gets the level the specification
  assigns from the thresholds at ranks \<open>hotCount - 1\<close> and \<open>hotCount + warmCount - 1\<close> of
  the counts sorted downwards and from 3 percent of the largest count. The levels are a
  function of the activity counts alone, and recomputing a second time changes nothing.
\<close>

theorem updateHeatLevels_refines_spec:
  "updateHeatLevels chs = recomputeHeatLevels_spec chs \<and>
   updateHeatLevels (updateHeatLevels chs) = updateHeatLevels chs \<and>
   map activityCount (updateHeatLevels chs) = map activityCount chs \<and>
   map heatLevel (updateHeatLevels chs) =
     (if filter (\<lambda>v. v > 0) (map activityCount chs) = [] then map heatLevel chs
      else map (spec_heatLevel (map activityCount chs)) (map activityCount chs))"
proof -
  have "map heatLevel (recomputeHeatLevels_spec chs) =
     (if filter (\<lambda>v. v > 0) (map activityCount chs) = [] then map heatLevel chs
      else map (spec_heatLevel (map activityCount chs)) (map activityCount chs))"
    unfolding recomputeHeatLevels_spec_def no_active_conv by (simp add: o_def)
  then show ?thesis
    by (simp only: updateHeatLevels_spec recompute_spec_idem recompute_spec_activity simp_thms)
qed

lemma updateHeatLevels_example:
  "map heatLevel (updateHeatLevels
     [\<lparr>chunk_x = 0, chunk_y = 0, heatLevel = 0, lastActivity = 7, activityCount = 5\<rparr>,
      \<lparr>chunk_x = 1, chunk_y = 0, heatLevel = 0, lastActivity = 8, activityCount = 1\<rparr>,
      \<lparr>chunk_x = 2, chunk_y = 0, heatLevel = 3, lastActivity = 0, activityCount = 0\<rparr>]) = [3, 2, 0]"
  by (simp add: updateHeatLevels_def Let_def assignHeat_def)

subsection \<open>Heat decay\<close>

lemma decayChunk_fst:
  "fst (decayChunk now c) =
     (let a = activityCount c; age = now - lastActivity c;
          m = (if age < 120000 then 0.999 else if age < 240000 then 0.98 else 0.95)
      in if 0 < a \<and> 60000 < age
         then (if a * m < 0.1 then c\<lparr>activityCount := 0, heatLevel := 0\<rparr>
               else if \<bar>a * m - a\<bar> > 0.01 then c\<lparr>activityCount := a * m\<rparr>
               else c)
         else c)"
  by (simp add: decayChunk_def Let_def NO_DECAY_PERIOD_def ACTIVITY_LIFETIME_def
        ACTIVITY_EXTENDED_LIFETIME_def SUPER_SLOW_DECAY_RATE_def SLOW_DECAY_RATE_def
        FINAL_DECAY_RATE_def)

lemma decayChunk_unchanged: "\<not> snd (decayChunk now c) \<Longrightarrow> fst (decayChunk now c) = c"
  by (simp add: decayChunk_def Let_def split: if_splits)

lemma decayLoop_map:
  "decayLoop now chs = (map (\<lambda>c. fst (decayChunk now c)) chs, list_ex (\<lambda>c. snd (decayChunk now c)) chs)"
  by (induction chs) (simp_all add: case_prod_beta)

lemma decayLoop_no_change:
  "\<not> list_ex (\<lambda>c. snd (decayChunk now c)) chs \<Longrightarrow> map (\<lambda>c. fst (decayChunk now c)) chs = chs"
  by (induction chs) (simp_all add: decayChunk_unchanged)

lemma decayTeam_chunks:
  "chunks (decayTeam now t) =
     (if list_ex (\<lambda>c. snd (decayChunk now c)) (chunks t)
      then updateHeatLevels (map (\<lambda>c. fst (decayChunk now c)) (chunks t))
      else map (\<lambda>c. fst (decayChunk now c)) (chunks t))"
  by (simp add: decayTeam_def decayLoop_map decayLoop_no_change)

lemma decayTeam_fields [simp]:
  "grid (decayTeam now t) = grid t" "ships (decayTeam now t) = ships t" "stats (decayTeam now t) = stats t"
  by (simp_all add: decayTeam_def decayLoop_map)

lemma teamGrid_decayTick: "teamGrid tm (decayTick now s) = decayTeam now (teamGrid tm s)"
  by (cases tm) (simp_all add: decayTick_def)

lemma decay_rate_le:
  fixes a :: real
  assumes "0 < a"
  shows "a * 0.999 \<le> a" "a * 0.98 \<le> a" "a * 0.95 \<le> a" "0 \<le> a * 0.999" "0 \<le> a * 0.98" "0 \<le> a * 0.95"
  using assms by simp_all

lemma updateHeatLevels_inactive_cold:
  assumes i: "i < length chs" and a: "activityCount (chs ! i) \<le> 0"
    and act: "filter (\<lambda>chunk. activityCount chunk > 0) chs \<noteq> []"
  shows "heatLevel (updateHeatLevels chs ! i) = 0"
proof -
  let ?vs = "filter (\<lambda>v. v > 0) (map activityCount chs)"
  let ?n = "length ?vs"
  have vne: "?vs \<noteq> []" using act unfolding no_active_conv .
  then have n: "0 < ?n" by (metis length_greater_0_conv)
  let ?wi = "min (max 1 (nat \<lfloor>0.20 * real ?n\<rfloor>) + max 2 (nat \<lfloor>0.30 * real ?n\<rfloor>) - 1) (?n - 1)"
  have wi: "?wi < ?n" by (rule min_pred_less[OF n])
  have wpos: "0 < rev (sort ?vs) ! ?wi"
    by (rule ranked_positive[OF _ wi]) simp
  have "set ?vs \<noteq> {}" using vne by (metis set_empty)
  then have "Max (set ?vs) \<in> set ?vs" by (rule Max_in[OF finite_set])
  then have mpos: "0 < Max (set ?vs)" by simp
  let ?hi = "min (max 1 (nat \<lfloor>0.20 * real ?n\<rfloor>) - 1) (?n - 1)"
  have n1: "\<not> (activityCount (chs ! i) \<ge> rev (sort ?vs) ! ?hi \<and> activityCount (chs ! i) > 0)"
    using a by linarith
  have n2: "\<not> activityCount (chs ! i) \<ge> rev (sort ?vs) ! ?wi"
    using a wpos by linarith
  have "0 < 0.03 * Max (set ?vs)" using mpos by simp
  then have n3: "\<not> activityCount (chs ! i) \<ge> 0.03 * Max (set ?vs)"
    using a by linarith
  have "spec_heatLevel (map activityCount chs) (activityCount (chs ! i)) = 0"
    unfolding spec_heatLevel_def Let_def by (simp only: n1 n2 n3 if_False)
  then show ?thesis
    unfolding updateHeatLevels_spec recomputeHeatLevels_spec_def using act i by simp
qed


text \<open>
  C6. One decay tick, chunk by chunk, for either team: the activity count does not grow
  and a count that is not negative stays so; a chunk whose last activity is at most 60 s
  old, or whose count is not positive, keeps its count; otherwise the count is multiplied
  by 0.999 (age below 120 s), 0.98 (below 240 s) or 0.95, becomes exactly 0 when the
  product is below 0.1, and stays as it was when the product differs from it by at most
  0.01. A chunk that the tick brings to 0, or that was at 0 with heat level 0, has heat
  level 0 after the tick.
\<close>

theorem decayTick_chunks:
  "let old = chunks (teamGrid tm s); new = chunks (teamGrid tm (decayTick now s))
   in length new = length old \<and>
      (\<forall>i<length old.
         let a = activityCount (old ! i); a' = activityCount (new ! i);
             age = now - lastActivity (old ! i);
             m = (if age < 120000 then 0.999 else if age < 240000 then 0.98 else 0.95)
         in a' \<le> a \<and> (0 \<le> a \<longrightarrow> 0 \<le> a') \<and>
            (age \<le> 60000 \<longrightarrow> a' = a) \<and>
            (a \<le> 0 \<longrightarrow> a' = a) \<and>
            (0 < a \<and> 60000 < age \<longrightarrow>
               a' = (if a * m < 0.1 then 0 else if \<bar>a * m - a\<bar> > 0.01 then a * m else a)) \<and>
            (a' = 0 \<and> (a \<noteq> 0 \<or> heatLevel (old ! i) = 0) \<longrightarrow> heatLevel (new ! i) = 0))"
proof -
  let ?old = "chunks (teamGrid tm s)"
  let ?dec = "map (\<lambda>c. fst (decayChunk now c)) ?old"
  let ?new = "chunks (teamGrid tm (decayTick now s))"
  have new: "?new = (if list_ex (\<lambda>c. snd (decayChunk now c)) ?old then updateHeatLevels ?dec else ?dec)"
    by (simp only: teamGrid_decayTick decayTeam_chunks)
  have len: "length ?new = length ?old"
    unfolding new by simp
  have act: "activityCount (?new ! i) = activityCount (fst (decayChunk now (?old ! i)))"
    if "i < length ?old" for i
    unfolding new using that by (simp add: updateHeatLevels_nth)
  have heat: "heatLevel (?new ! i) = 0"
    if i: "i < length ?old" and z: "activityCount (?new ! i) = 0"
      and h: "activityCount (?old ! i) \<noteq> 0 \<or> heatLevel (?old ! i) = 0" for i
  proof -
    have d0: "activityCount (?dec ! i) = 0" using act[OF i] z i by simp
    have dh: "heatLevel (?dec ! i) = 0"
      using d0 h i by (auto simp: decayChunk_fst Let_def split: if_splits)
    show ?thesis
    proof (cases "list_ex (\<lambda>c. snd (decayChunk now c)) ?old \<and>
                  filter (\<lambda>chunk. activityCount chunk > 0) ?dec \<noteq> []")
      case True
      then have "?new = updateHeatLevels ?dec" by (simp add: new)
      moreover have "heatLevel (updateHeatLevels ?dec ! i) = 0"
        by (rule updateHeatLevels_inactive_cold) (use i d0 True in simp_all)
      ultimately show ?thesis by simp
    next
      case False
      then have "?new = ?dec"
        by (auto simp: new updateHeatLevels_def)
      then show ?thesis using dh by simp
    qed
  qed
  have arith: "let a = activityCount (?old ! i); a' = activityCount (fst (decayChunk now (?old ! i)));
             age = now - lastActivity (?old ! i);
             m = (if age < 120000 then 0.999 else if age < 240000 then 0.98 else 0.95)
         in a' \<le> a \<and> (0 \<le> a \<longrightarrow> 0 \<le> a') \<and>
            (age \<le> 60000 \<longrightarrow> a' = a) \<and>
            (a \<le> 0 \<longrightarrow> a' = a) \<and>
            (0 < a \<and> 60000 < age \<longrightarrow>
               a' = (if a * m < 0.1 then 0 else if \<bar>a * m - a\<bar> > 0.01 then a * m else a))" for i
    by (simp add: decayChunk_fst Let_def)
  have per: "activityCount (?new ! i) \<le> activityCount (?old ! i) \<and>
       (0 \<le> activityCount (?old ! i) \<longrightarrow> 0 \<le> activityCount (?new ! i)) \<and>
       (now - lastActivity (?old ! i) \<le> 60000 \<longrightarrow> activityCount (?new ! i) = activityCount (?old ! i)) \<and>
       (activityCount (?old ! i) \<le> 0 \<longrightarrow> activityCount (?new ! i) = activityCount (?old ! i)) \<and>
       (0 < activityCount (?old ! i) \<and> 60000 < now - lastActivity (?old ! i) \<longrightarrow>
          activityCount (?new ! i) =
            (if activityCount (?old ! i) *
                  (if now - lastActivity (?old ! i) < 120000 then 0.999
                   else if now - lastActivity (?old ! i) < 240000 then 0.98 else 0.95) < 0.1
             then 0
             else if \<bar>activityCount (?old ! i) *
                  (if now - lastActivity (?old ! i) < 120000 then 0.999
                   else if now - lastActivity (?old ! i) < 240000 then 0.98 else 0.95) -
                  activityCount (?old ! i)\<bar> > 0.01
             then activityCount (?old ! i) *
                  (if now - lastActivity (?old ! i) < 120000 then 0.999
                   else if now - lastActivity (?old ! i) < 240000 then 0.98 else 0.95)
             else activityCount (?old ! i))) \<and>
       (activityCount (?new ! i) = 0 \<and>
          (activityCount (?old ! i) \<noteq> 0 \<or> heatLevel (?old ! i) = 0) \<longrightarrow>
        heatLevel (?new ! i) = 0)"
    if i: "i < length ?old" for i
  proof -
    note A = arith[unfolded Let_def, of i, folded act[OF i]]
    from heat[OF i] have B: "activityCount (?new ! i) = 0 \<and>
          (activityCount (?old ! i) \<noteq> 0 \<or> heatLevel (?old ! i) = 0) \<longrightarrow>
        heatLevel (?new ! i) = 0" by blast
    from A B show ?thesis by blast
  qed
  show ?thesis
    unfolding Let_def using len per by blast
qed


lemma initialChunks_length: "length initialChunks = 100"
  by (simp add: initialChunks_def TOTAL_CHUNKS_def CHUNK_SIZE_def)

theorem decayTick_chunks_witness:
  "activityCount (chunks (teamGrid blue (decayTick 301000 decayExample)) ! 0) = 4.75 \<and>
   activityCount (chunks (teamGrid blue (decayTick 301000 decayExample)) ! 2) = 0 \<and>
   heatLevel (chunks (teamGrid blue (decayTick 301000 decayExample)) ! 2) = 0"
proof -
  let ?old = "chunks (blueTeamGrid decayExample)"
  have len: "0 < length (chunks (teamGrid blue decayExample))"
            "2 < length (chunks (teamGrid blue decayExample))"
    by (simp_all add: decayExample_def initialChunks_length)
  have c0: "activityCount (?old ! 0) = 5" "lastActivity (?old ! 0) = 1000"
    and c1: "activityCount (?old ! 2) = 0.05" "lastActivity (?old ! 2) = 1000"
    by (simp_all add: decayExample_def initialChunks_length)
  note T = decayTick_chunks[of blue decayExample 301000, unfolded Let_def, THEN conjunct2, rule_format]
  have "activityCount (chunks (teamGrid blue (decayTick 301000 decayExample)) ! 0) = 4.75"
    using T[OF len(1)] by (simp add: c0)
  moreover have z: "activityCount (chunks (teamGrid blue (decayTick 301000 decayExample)) ! 2) = 0"
    using T[OF len(2)] by (simp add: c1)
  moreover have "heatLevel (chunks (teamGrid blue (decayTick 301000 decayExample)) ! 2) = 0"
    using T[OF len(2)] z by (simp add: c1)
  ultimately show ?thesis by blast
qed

subsection \<open>The lifetime of a cooldown\<close>

lemma cell_at_nth: "cell_at g x y = Some c \<Longrightarrow> g ! nat y ! nat x = c \<and> 0 \<le> x \<and> 0 \<le> y"
  by (auto simp: cell_at_def js_index_def split: if_splits option.splits)

lemma js_index_update:
  "0 \<le> i \<Longrightarrow>
     js_index (xs[nat i := v]) j = (if j = i \<and> js_index xs i \<noteq> None then Some v else js_index xs j)"
  by (auto simp: js_index_def nth_list_update)

lemma js_index_nth: "js_index xs i = Some v \<Longrightarrow> xs ! nat i = v"
  by (simp add: js_index_def split: if_splits)

lemma cell_at_set_cell_any:
  "cell_at (set_cell g x y c) x' y' =
     (if x' = x \<and> y' = y \<and> cell_at g x y \<noteq> None then Some c else cell_at g x' y')"
proof (cases "0 \<le> x \<and> 0 \<le> y")
  case False
  then have "cell_at g x y = None"
    by (auto simp: cell_at_def js_index_def split: option.splits)
  with False show ?thesis by (auto simp: set_cell_def)
next
  case True
  then have x: "0 \<le> x" and y: "0 \<le> y" by simp_all
  have s: "set_cell g x y c = g[nat y := (g ! nat y)[nat x := c]]"
    using True by (simp add: set_cell_def)
  show ?thesis
  proof (cases "js_index g y")
    case None
    then show ?thesis
      unfolding s cell_at_def js_index_update[OF y] by simp
  next
    case (Some row)
    have r: "g ! nat y = row" using Some by (rule js_index_nth)
    show ?thesis
      unfolding s cell_at_def js_index_update[OF y] r
      using Some by (simp add: js_index_update[OF x])
  qed
qed

lemma cooldownAt_markHit:
  assumes "cell_at (grid t) x y = Some c"
  shows "map_option cooldownUntil (cell_at (grid (markHit x y t)) cx cy) =
         map_option cooldownUntil (cell_at (grid t) cx cy)"
  using assms cell_at_nth[OF assms]
  by (auto simp: grid_markHit cell_at_set_cell_any)

lemma fireTarget_cooldown:
  "map_option cooldownUntil (cell_at (grid (snd (fireTarget now x y t))) cx cy) =
   map_option cooldownUntil (cell_at (grid t) cx cy)"
proof (cases "cell_at (grid t) x y")
  case None
  then show ?thesis by (simp add: fireTarget_def Let_def)
next
  case (Some c)
  have g: "cell_at (grid (recordActivity now (x div CELLS_PER_CHUNK) (y div CELLS_PER_CHUNK) t)) x y = Some c"
    using Some by simp
  show ?thesis
    using Some cooldownAt_markHit[OF g, of cx cy]
    by (simp add: fireTarget_def Let_def split: option.splits)
qed

lemma cooldown_of_map:
  "map_option cooldownUntil a = map_option cooldownUntil b \<Longrightarrow>
     (case a of None \<Rightarrow> None | Some c \<Rightarrow> cooldownUntil c) =
     (case b of None \<Rightarrow> None | Some c \<Rightarrow> cooldownUntil c)"
  by (cases a; cases b; simp)

lemma cooldownAt_fireShot:
  "cooldownAt (snd (fireShot now x y tm s)) tm' cx cy = cooldownAt s tm' cx cy"
proof (cases "tm' = tm")
  case True
  then show ?thesis by (simp add: cooldownAt_def fireShot_actor_unchanged)
next
  case False
  then have o: "tm' = opposite tm" by (cases tm; cases tm'; simp)
  show ?thesis
    unfolding cooldownAt_def o fireShot_target
    by (rule cooldown_of_map[OF fireTarget_cooldown])
qed

lemma cooldownAt_decayTick: "cooldownAt (decayTick now s) tm cx cy = cooldownAt s tm cx cy"
  by (simp add: cooldownAt_def teamGrid_decayTick)

lemma cell_at_placeCells_any:
  "cell_at (placeCells r cs g) x y =
     (if (x, y) \<in> set cs \<and> cell_at g x y \<noteq> None
      then Some \<lparr>occupied = True, hit = False, ship = Some r, cooldownUntil = None\<rparr>
      else cell_at g x y)"
proof (induction cs arbitrary: g)
  case Nil
  then show ?case by (simp add: placeCells_def)
next
  case (Cons p cs)
  obtain px py where p: "p = (px, py)" by (cases p)
  show ?case
    unfolding p placeCells_Cons Cons.IH
    by (auto simp: cell_at_set_cell_any)
qed


lemma placeShip_success:
  assumes "fst (placeShip player now newId gen x y sz h tm s) = Inr True"
  shows "isValidShipPlacement (grid (teamGrid tm s)) (placeShipCells x y sz h) now = Inr True"
    and "snd (placeShip player now newId gen x y sz h tm s) =
           setTeamGrid tm (registerShip
              \<lparr>ship_id = (if newId = [] then gen else newId), ship_owner = player,
               cells = placeShipCells x y sz h, hits = 0, destroyed = False\<rparr>) s"
  using assms
  by (auto simp: placeShip_def processAction_def Let_def split: sum.splits if_splits)

lemma placeShip_failure:
  "fst (placeShip player now newId gen x y sz h tm s) \<noteq> Inr True \<Longrightarrow>
     snd (placeShip player now newId gen x y sz h tm s) = s"
  by (auto simp: placeShip_def processAction_def Let_def split: sum.splits if_splits)

lemma cooldownAt_placeShip:
  "cooldownAt (snd (placeShip player now newId gen x y sz h tm' s)) tm cx cy =
     (if fst (placeShip player now newId gen x y sz h tm' s) = Inr True \<and> tm' = tm \<and>
         (cx, cy) \<in> set (placeShipCells x y sz h)
      then None else cooldownAt s tm cx cy)"
proof (cases "fst (placeShip player now newId gen x y sz h tm' s) = Inr True")
  case False
  then show ?thesis by (simp add: placeShip_failure)
next
  case True
  show ?thesis
  proof (cases "tm' = tm")
    case same: True
    have "teamGrid tm' (snd (placeShip player now newId gen x y sz h tm' s)) =
             registerShip
               \<lparr>ship_id = (if newId = [] then gen else newId), ship_owner = player,
                cells = placeShipCells x y sz h, hits = 0, destroyed = False\<rparr> (teamGrid tm' s)"
      unfolding placeShip_success(2)[OF True] by (rule teamGrid_setTeamGrid_same)
    then have e: "teamGrid tm (snd (placeShip player now newId gen x y sz h tm' s)) =
             registerShip
               \<lparr>ship_id = (if newId = [] then gen else newId), ship_owner = player,
                cells = placeShipCells x y sz h, hits = 0, destroyed = False\<rparr> (teamGrid tm s)"
      unfolding same .
    have t: "(fst (placeShip player now newId gen x y sz h tm' s) = Inr True \<and> tm' = tm \<and>
              (cx, cy) \<in> set (placeShipCells x y sz h)) = ((cx, cy) \<in> set (placeShipCells x y sz h))"
      using True same by simp
    show ?thesis
      unfolding cooldownAt_def e t
      by (simp add: registerShip_def cell_at_placeCells_any split: option.splits)
  next
    case other: False
    then have o: "tm = opposite tm'" by (cases tm; cases tm'; simp)
    have e: "teamGrid tm (snd (placeShip player now newId gen x y sz h tm' s)) = teamGrid tm s"
      unfolding placeShip_success(2)[OF True] o by (rule teamGrid_setTeamGrid_other)
    show ?thesis
      unfolding cooldownAt_def e using other by simp
  qed
qed



lemma run_Cons: "run (op # ops) s = run ops (applyOp op s)"
  by (simp add: run_def)



text \<open>
  No event sets a \<open>cooldownUntil\<close>: from a state without any, and so from the initial
  state, no run reaches a state with one.
\<close>

lemma cooldownAt_applyOp_None:
  "cooldownAt s tm cx cy = None \<Longrightarrow> cooldownAt (applyOp op s) tm cx cy = None"
  by (cases op) (auto simp: cooldownAt_placeShip cooldownAt_fireShot cooldownAt_decayTick)

lemma cooldownAt_run_None:
  "cooldownAt s tm cx cy = None \<Longrightarrow> cooldownAt (run ops s) tm cx cy = None"
proof (induction ops arbitrary: s)
  case Nil
  then show ?case by (simp add: run_def)
next
  case (Cons op ops)
  then show ?case by (simp add: run_Cons cooldownAt_applyOp_None)
qed

lemma cooldownAt_initialState: "cooldownAt initialState tm cx cy = None"
  by (cases tm)
     (simp_all add: cooldownAt_def initialState_def initialTeamGrid_def cell_at_generateEmptyGrid
        emptyCell_def)

lemma cooldownAt_run_initialState: "cooldownAt (run ops initialState) tm cx cy = None"
  by (rule cooldownAt_run_None[OF cooldownAt_initialState])







end
